theory Spec2Isabelle
  imports Main "HOL-Library.FSet"
begin

section \<open>Data of the manager (sorna/manager.py)\<close>

text \<open>
  \<^verbatim>\<open>KernelDriverTypes = Enum('KernelDriverTypes', 'local docker')\<close> and
  \<^verbatim>\<open>AgentPortRange = tuple(range(5002, 5010))\<close>.
\<close>

datatype KernelDriverTypes = local | docker

definition AgentPortRange :: "int list" where
  "AgentPortRange = [5002..5009]"

text \<open>
  \<open>Instance\<close> is a mutable namedlist. \<open>used_ports\<close> defaults to \<open>None\<close> and holds a
  Python set (always finite) once \<open>create_kernel\<close> has initialised it.
\<close>

record Instance =
  ip :: string
  docker_port :: int
  tag :: string
  max_kernels :: int
  cur_kernels :: int
  used_ports :: "int fset option"

text \<open>
  Instances are objects that the instance registry and the kernels both point to, and
  the drivers mutate them in place. The model keeps them in a store indexed by
  references, so that a kernel's \<open>instance\<close> field aliases the registry's entry.
\<close>

type_synonym ref = nat

text \<open>
  The string \<^verbatim>\<open>'tcp://{0}:{1}'.format(instance.ip, agent_port)\<close> is kept as its two
  format arguments; \<^verbatim>\<open>urlparse(kernel.agent_sock).port\<close> reads the second one back.
\<close>

datatype sock = TcpSock string int

text \<open>
  The driver-private handle \<open>priv\<close>: the container id for the docker driver, the child
  process for the local driver (recorded with the \<^verbatim>\<open>--kernel-id\<close> and
  \<^verbatim>\<open>--agent-port\<close> arguments it was started with).
\<close>

datatype handle = Container string | Process string int

record Kernel =
  instance_ref :: ref
  kernel_id :: string
  spec :: string
  agent_sock :: "sock option"
  stdin_sock :: "string option"
  stdout_sock :: "string option"
  stderr_sock :: "string option"
  priv :: handle

text \<open>
  The module state: the selected driver, the instance objects, the instance registry
  (a dict, kept as the list of its items in iteration order) and the kernel registry.
\<close>

record manager =
  kernel_driver :: KernelDriverTypes
  heap :: "ref \<Rightarrow> Instance"
  instance_registry :: "(string \<times> ref) list"
  kernel_registry :: "string \<rightharpoonup> Kernel"

text \<open>
  Exceptions. An \<open>AssertionError\<close> carries the asserted expression, a \<open>NameError\<close>
  the unbound name.
\<close>

datatype error =
  AssertionError string
  | KeyError
  | NameError string
  | AttributeError string
  | TypeError
  | NotImplementedError
  | ProcessLookupError
  | DecodeError

definition set_instance :: "ref \<Rightarrow> Instance \<Rightarrow> manager \<Rightarrow> manager" where
  "set_instance r i s = s\<lparr>heap := (heap s)(r := i)\<rparr>"

section \<open>Drivers\<close>

subsection \<open>find\_avail\_instance\<close>

text \<open>
  \<^verbatim>\<open>for instance in instance_registry.values():
      if instance.cur_kernels < instance.max_kernels:
          instance.cur_kernels += 1
          return instance
  return None\<close>
  The loop runs over the references of the registry's values.
\<close>

fun docker_scan :: "ref list \<Rightarrow> manager \<Rightarrow> ref option \<times> manager" where
  "docker_scan [] s = (None, s)"
| "docker_scan (r # rs) s =
     (if cur_kernels (heap s r) < max_kernels (heap s r)
      then (Some r, set_instance r ((heap s r)\<lparr>cur_kernels := cur_kernels (heap s r) + 1\<rparr>) s)
      else docker_scan rs s)"

definition DockerKernelDriver_find_avail_instance :: "manager \<Rightarrow> ref option \<times> manager" where
  "DockerKernelDriver_find_avail_instance s = docker_scan (map snd (instance_registry s)) s"

text \<open>
  The local driver skips (\<^verbatim>\<open>continue\<close>) every instance whose ip is not
  \<^verbatim>\<open>'127.0.0.1'\<close>.
\<close>

fun local_scan :: "ref list \<Rightarrow> manager \<Rightarrow> ref option \<times> manager" where
  "local_scan [] s = (None, s)"
| "local_scan (r # rs) s =
     (if ip (heap s r) \<noteq> ''127.0.0.1'' then local_scan rs s
      else if cur_kernels (heap s r) < max_kernels (heap s r)
      then (Some r, set_instance r ((heap s r)\<lparr>cur_kernels := cur_kernels (heap s r) + 1\<rparr>) s)
      else local_scan rs s)"

definition LocalKernelDriver_find_avail_instance :: "manager \<Rightarrow> ref option \<times> manager" where
  "LocalKernelDriver_find_avail_instance s = local_scan (map snd (instance_registry s)) s"

fun find_avail_instance :: "KernelDriverTypes \<Rightarrow> manager \<Rightarrow> ref option \<times> manager" where
  "find_avail_instance docker s = DockerKernelDriver_find_avail_instance s"
| "find_avail_instance local s = LocalKernelDriver_find_avail_instance s"

subsection \<open>create\_kernel\<close>

text \<open>
  The port loop shared by both drivers:
  \<^verbatim>\<open>agent_port = 0
  for p in AgentPortRange:
      if p not in instance.used_ports:
          instance.used_ports.add(p)
          agent_port = p
          break\<close>
\<close>

fun pick_port :: "int list \<Rightarrow> int fset \<Rightarrow> int \<times> int fset" where
  "pick_port [] used = (0, used)"
| "pick_port (p # ps) used =
     (if p |\<notin>| used then (p, finsert p used) else pick_port ps used)"

text \<open>\<^verbatim>\<open>if instance.used_ports is None: instance.used_ports = set()\<close>\<close>

definition init_used_ports :: "Instance \<Rightarrow> Instance" where
  "init_used_ports i = (case used_ports i of None \<Rightarrow> i\<lparr>used_ports := Some {||}\<rparr> | Some u \<Rightarrow> i)"

text \<open>The set that \<open>instance.used_ports\<close> holds after that statement.\<close>

definition ports_of :: "Instance \<Rightarrow> int fset" where
  "ports_of i = (case used_ports i of None \<Rightarrow> {||} | Some u \<Rightarrow> u)"

text \<open>
  The docker driver. The docker client is not part of the repository: the object that
  \<^verbatim>\<open>create_container\<close> answers is taken to have the attribute \<open>id\<close> that line 143
  reads, and \<open>container_id\<close> is its value. The record is written to the registry, and
  the last statement, \<^verbatim>\<open>return kernel_id\<close>, reads a name that is bound neither in the
  method nor in the module: it raises \<open>NameError\<close>.
\<close>

definition DockerKernelDriver_create_kernel ::
  "string \<Rightarrow> ref \<Rightarrow> manager \<Rightarrow> (error + string) \<times> manager" where
  "DockerKernelDriver_create_kernel container_id r s =
     (let i1 = init_used_ports (heap s r);
          s1 = set_instance r i1 s
      in if \<not> max_kernels i1 \<le> int (length AgentPortRange)
         then (Inl (AssertionError ''instance.max_kernels <= len(AgentPortRange)''), s1)
         else
           let (agent_port, used') = pick_port AgentPortRange (ports_of i1);
               i2 = i1\<lparr>used_ports := Some used'\<rparr>;
               s2 = set_instance r i2 s1
           in if agent_port = 0
              then (Inl (AssertionError ''agent_port != 0''), s2)
              else
                let kern = \<lparr>instance_ref = r,
                              kernel_id = ''docker-'' @ ip i2 @ ''/'' @ container_id,
                              spec = ''python34'',
                              agent_sock = Some (TcpSock (ip i2) agent_port),
                              stdin_sock = None, stdout_sock = None, stderr_sock = None,
                              priv = Container container_id\<rparr>;
                    s3 = s2\<lparr>kernel_registry := (kernel_registry s2)(kernel_id kern \<mapsto> kern)\<rparr>
                in (Inl (NameError ''kernel_id''), s3))"

text \<open>
  The local driver. \<open>unique_id\<close> is \<^verbatim>\<open>str(uuid.uuid4())\<close>; the child process is
  started with the kernel id and the agent port.
\<close>

definition LocalKernelDriver_create_kernel ::
  "string \<Rightarrow> ref \<Rightarrow> manager \<Rightarrow> (error + string) \<times> manager" where
  "LocalKernelDriver_create_kernel unique_id r s =
     (let i1 = init_used_ports (heap s r);
          s1 = set_instance r i1 s
      in if \<not> max_kernels i1 < int (length AgentPortRange)
         then (Inl (AssertionError ''instance.max_kernels < len(AgentPortRange)''), s1)
         else
           let (agent_port, used') = pick_port AgentPortRange (ports_of i1);
               i2 = i1\<lparr>used_ports := Some used'\<rparr>;
               s2 = set_instance r i2 s1
           in if agent_port = 0
              then (Inl (AssertionError ''agent_port != 0''), s2)
              else
                let kid = ''local/'' @ unique_id;
                    kern = \<lparr>instance_ref = r,
                              kernel_id = kid,
                              spec = ''python34'',
                              agent_sock = Some (TcpSock (ip i2) agent_port),
                              stdin_sock = None, stdout_sock = None, stderr_sock = None,
                              priv = Process kid agent_port\<rparr>;
                    s3 = s2\<lparr>kernel_registry := (kernel_registry s2)(kid \<mapsto> kern)\<rparr>
                in (Inr kid, s3))"

fun create_kernel ::
  "KernelDriverTypes \<Rightarrow> string \<Rightarrow> ref \<Rightarrow> manager \<Rightarrow> (error + string) \<times> manager" where
  "create_kernel docker fresh r s = DockerKernelDriver_create_kernel fresh r s"
| "create_kernel local fresh r s = LocalKernelDriver_create_kernel fresh r s"

subsection \<open>destroy\_kernel\<close>

text \<open>\<^verbatim>\<open>urlparse(kernel.agent_sock).port\<close>; no port when the socket was never set.\<close>

fun url_port :: "sock option \<Rightarrow> int option" where
  "url_port None = None"
| "url_port (Some (TcpSock host p)) = Some p"

text \<open>
  \<^verbatim>\<open>kernel.instance.used_ports.remove(agent_url.port)\<close>: \<open>AttributeError\<close> when
  \<open>used_ports\<close> is still \<open>None\<close>, \<open>KeyError\<close> when the port is not in the set.
\<close>

definition remove_port :: "Instance \<Rightarrow> int option \<Rightarrow> error + Instance" where
  "remove_port i port =
     (case used_ports i of
        None \<Rightarrow> Inl (AttributeError ''remove'')
      | Some u \<Rightarrow>
          (case port of
             None \<Rightarrow> Inl KeyError
           | Some p \<Rightarrow> if p |\<in>| u then Inr (i\<lparr>used_ports := Some (u |-| {|p|})\<rparr>) else Inl KeyError))"

text \<open>
  The child process of the kernel that a DESTROY names, as \<^verbatim>\<open>proc.terminate()\<close> and
  \<^verbatim>\<open>proc.wait()\<close> find it: running, and exiting once it is terminated; running, and not
  exiting, so that \<^verbatim>\<open>proc.wait()\<close> never returns; or exited already, so that
  \<^verbatim>\<open>terminate()\<close> raises \<open>ProcessLookupError\<close>.
\<close>

datatype child = Exits | Lingers | Gone

text \<open>
  The result of \<open>destroy_kernel\<close> is \<open>None\<close> when the call never returns.

  The docker driver decrements the counter, releases the port, deletes the record and
  then \<^verbatim>\<open>raise NotImplementedError()\<close>.
\<close>

definition DockerKernelDriver_destroy_kernel ::
  "string \<Rightarrow> manager \<Rightarrow> (error + unit) option \<times> manager" where
  "DockerKernelDriver_destroy_kernel kid s =
     (case kernel_registry s kid of
        None \<Rightarrow> (Some (Inl KeyError), s)
      | Some kern \<Rightarrow>
          let r = instance_ref kern;
              i1 = (heap s r)\<lparr>cur_kernels := cur_kernels (heap s r) - 1\<rparr>;
              s1 = set_instance r i1 s
          in if \<not> cur_kernels i1 \<ge> 0
             then (Some (Inl (AssertionError ''kernel.instance.cur_kernels >= 0'')), s1)
             else
               (case remove_port i1 (url_port (agent_sock kern)) of
                  Inl e \<Rightarrow> (Some (Inl e), s1)
                | Inr i2 \<Rightarrow>
                    let s2 = set_instance r i2 s1;
                        s3 = s2\<lparr>kernel_registry := (kernel_registry s2)(kid := None)\<rparr>
                    in (Some (Inl NotImplementedError), s3)))"

text \<open>
  The local driver terminates the child process and waits for it between the assertion
  and the release of the port; a handle that is not a process has no \<open>terminate\<close>.
\<close>

definition LocalKernelDriver_destroy_kernel ::
  "child \<Rightarrow> string \<Rightarrow> manager \<Rightarrow> (error + unit) option \<times> manager" where
  "LocalKernelDriver_destroy_kernel ch kid s =
     (case kernel_registry s kid of
        None \<Rightarrow> (Some (Inl KeyError), s)
      | Some kern \<Rightarrow>
          let r = instance_ref kern;
              i1 = (heap s r)\<lparr>cur_kernels := cur_kernels (heap s r) - 1\<rparr>;
              s1 = set_instance r i1 s
          in if \<not> cur_kernels i1 \<ge> 0
             then (Some (Inl (AssertionError ''kernel.instance.cur_kernels >= 0'')), s1)
             else
               (case priv kern of
                  Container c \<Rightarrow> (Some (Inl (AttributeError ''terminate'')), s1)
                | Process k p \<Rightarrow>
                    (case ch of
                       Gone \<Rightarrow> (Some (Inl ProcessLookupError), s1)
                     | Lingers \<Rightarrow> (None, s1)
                     | Exits \<Rightarrow>
                         (case remove_port i1 (url_port (agent_sock kern)) of
                            Inl e \<Rightarrow> (Some (Inl e), s1)
                          | Inr i2 \<Rightarrow>
                              let s2 = set_instance r i2 s1;
                                  s3 = s2\<lparr>kernel_registry := (kernel_registry s2)(kid := None)\<rparr>
                              in (Some (Inr ()), s3)))))"

fun destroy_kernel ::
  "KernelDriverTypes \<Rightarrow> child \<Rightarrow> string \<Rightarrow> manager \<Rightarrow> (error + unit) option \<times> manager" where
  "destroy_kernel docker ch kid s = DockerKernelDriver_destroy_kernel kid s"
| "destroy_kernel local ch kid s = LocalKernelDriver_destroy_kernel ch kid s"

section \<open>The request handler (handle\_api)\<close>

datatype action = PING | CREATE | DESTROY

datatype reply = PONG | SUCCESS | INVALID_INPUT | FAILURE

text \<open>
  A response body is a string; the body of a successful CREATE is \<^verbatim>\<open>json.dumps\<close> of a
  dict, kept as the list of its items.
\<close>

datatype json = JNull | JString string | JSock sock

datatype body = Text string | Json "(string \<times> json) list"

record ManagerRequest =
  action :: action
  req_kernel_id :: string
  req_body :: string

record ManagerResponse =
  reply :: reply
  resp_kernel_id :: string
  resp_body :: body

text \<open>
  What the outside answers while one request is served: the identifier that
  \<^verbatim>\<open>uuid.uuid4()\<close> (local driver) or the docker daemon (container id) yields, for
  each call of \<open>ping_kernel\<close> (counted from 0) whether the agent echoed the token within
  2 seconds, the dict that the agent's SOCKET_INFO reply decodes to, and how the child
  process of the kernel fares when a DESTROY terminates it.
\<close>

record world =
  fresh_id :: string
  ping_ok :: "nat \<Rightarrow> bool"
  sock_info :: "string \<rightharpoonup> string"
  child :: child

text \<open>
  What the handler does, in order: reading a request, writing a response, sleeping (in
  milliseconds), calling \<open>ping_kernel\<close> for a kernel id.
\<close>

datatype effect =
  Read ManagerRequest
  | Write ManagerResponse
  | Sleep nat
  | Ping string

text \<open>
  \<open>ping_kernel\<close>: \<^verbatim>\<open>kernel_registry[kernel_id]\<close> raises \<open>KeyError\<close> for an unknown id;
  otherwise the result is \<^verbatim>\<open>resp.body == req_id\<close>, or \<open>False\<close> after the timeout.
\<close>

definition ping_kernel :: "world \<Rightarrow> nat \<Rightarrow> string \<Rightarrow> manager \<Rightarrow> error + bool" where
  "ping_kernel w n kid s =
     (case kernel_registry s kid of
        None \<Rightarrow> Inl KeyError
      | Some kern \<Rightarrow> Inr (ping_ok w n))"

text \<open>
  \<open>get_socket_info\<close> assigns the three endpoints of the registered record one after the
  other; a key missing from the agent's answer raises \<open>KeyError\<close> at its assignment.
\<close>

definition get_socket_info :: "world \<Rightarrow> string \<Rightarrow> manager \<Rightarrow> (error + unit) \<times> manager" where
  "get_socket_info w kid s =
     (case kernel_registry s kid of
        None \<Rightarrow> (Inl KeyError, s)
      | Some kern \<Rightarrow>
          (case sock_info w ''stdin'' of
             None \<Rightarrow> (Inl KeyError, s)
           | Some i \<Rightarrow>
               let k1 = kern\<lparr>stdin_sock := Some i\<rparr>;
                   s1 = s\<lparr>kernel_registry := (kernel_registry s)(kid \<mapsto> k1)\<rparr>
               in (case sock_info w ''stdout'' of
                     None \<Rightarrow> (Inl KeyError, s1)
                   | Some out \<Rightarrow>
                       let k2 = k1\<lparr>stdout_sock := Some out\<rparr>;
                           s2 = s\<lparr>kernel_registry := (kernel_registry s)(kid \<mapsto> k2)\<rparr>
                       in (case sock_info w ''stderr'' of
                             None \<Rightarrow> (Inl KeyError, s2)
                           | Some err \<Rightarrow>
                               let k3 = k2\<lparr>stderr_sock := Some err\<rparr>
                               in (Inr (), s\<lparr>kernel_registry := (kernel_registry s)(kid \<mapsto> k3)\<rparr>)))))"

text \<open>
  The probe loop:
  \<^verbatim>\<open>tries = 0
  while tries < 5:
      success = yield from driver.ping_kernel(kernel_id)
      if success:
          break
      else:
          yield from asyncio.sleep(1, loop=loop)
          tries += 1
  else:
      ...\<close>
  The result is \<open>True\<close> when the loop was left by \<^verbatim>\<open>break\<close> and \<open>False\<close> when the
  \<^verbatim>\<open>else\<close> clause of the \<^verbatim>\<open>while\<close> runs.
\<close>

fun after :: "effect list \<Rightarrow> 'a \<times> effect list \<Rightarrow> 'a \<times> effect list" where
  "after pre (r, tr) = (r, pre @ tr)"

function probe :: "world \<Rightarrow> string \<Rightarrow> manager \<Rightarrow> nat \<Rightarrow> (error + bool) \<times> effect list" where
  "probe w kid s tries =
     (if tries < 5
      then (case ping_kernel w tries kid s of
              Inl e \<Rightarrow> (Inl e, [Ping kid])
            | Inr success \<Rightarrow>
                if success then (Inr True, [Ping kid])
                else after [Ping kid, Sleep 1000] (probe w kid s (tries + 1)))
      else (Inr False, []))"
  by pat_completeness auto
termination
  by (relation "measure (\<lambda>(w, kid, s, tries). 5 - tries)") auto

declare probe.simps [simp del]

text \<open>
  What becomes of the coroutine after one pass through the body of \<^verbatim>\<open>while True\<close>: it
  goes on with the next pass, it returns, an exception leaves it, or it never resumes.
\<close>

datatype step = Continue | Return | Raise error | Hang

definition no_instance_response :: ManagerResponse where
  "no_instance_response =
     \<lparr>reply = FAILURE, resp_kernel_id = [],
      resp_body = Text ''No instance is available to launch a new kernel.''\<rparr>"

definition no_response_response :: ManagerResponse where
  "no_response_response =
     \<lparr>reply = FAILURE, resp_kernel_id = [],
      resp_body = Text ''The created kernel did not respond!''\<rparr>"

definition json_opt :: "string option \<Rightarrow> json" where
  "json_opt x = (case x of None \<Rightarrow> JNull | Some v \<Rightarrow> JString v)"

definition success_response :: "string \<Rightarrow> Kernel \<Rightarrow> ManagerResponse" where
  "success_response kid kern =
     \<lparr>reply = SUCCESS, resp_kernel_id = kid,
      resp_body = Json [(''agent_sock'', (case agent_sock kern of None \<Rightarrow> JNull | Some a \<Rightarrow> JSock a)),
                        (''stdin_sock'', JNull),
                        (''stdout_sock'', json_opt (stdout_sock kern)),
                        (''stderr_sock'', json_opt (stderr_sock kern))]\<rparr>"

text \<open>The CREATE branch after \<open>create_kernel\<close> has returned \<open>kernel_id\<close>.\<close>

definition create_probe :: "world \<Rightarrow> string \<Rightarrow> manager \<Rightarrow> step \<times> effect list \<times> manager" where
  "create_probe w kid s =
     (case probe w kid s 0 of
        (Inl e, tr) \<Rightarrow> (Raise e, Sleep 200 # tr, s)
      | (Inr False, tr) \<Rightarrow> (Return, Sleep 200 # tr @ [Write no_response_response], s)
      | (Inr True, tr) \<Rightarrow>
          (case get_socket_info w kid s of
             (Inl e, s1) \<Rightarrow> (Raise e, Sleep 200 # tr, s1)
           | (Inr u, s1) \<Rightarrow>
               (case kernel_registry s1 kid of
                  None \<Rightarrow> (Raise KeyError, Sleep 200 # tr, s1)
                | Some kern \<Rightarrow>
                    (Continue, Sleep 200 # tr @ [Write (success_response kid kern)], s1))))"

text \<open>
  One pass through the loop body for a request already read. The driver object is built
  from the module's \<open>kernel_driver\<close>; an exception of a driver call leaves the coroutine.
\<close>

definition handle_request ::
  "world \<Rightarrow> ManagerRequest \<Rightarrow> manager \<Rightarrow> step \<times> effect list \<times> manager" where
  "handle_request w req s =
     (case action req of
        PING \<Rightarrow>
          (Continue,
           [Write \<lparr>reply = PONG, resp_kernel_id = [], resp_body = Text (req_body req)\<rparr>], s)
      | CREATE \<Rightarrow>
          (case find_avail_instance (kernel_driver s) s of
             (None, s1) \<Rightarrow> (Return, [Write no_instance_response], s1)
           | (Some r, s1) \<Rightarrow>
               (case create_kernel (kernel_driver s) (fresh_id w) r s1 of
                  (Inl e, s2) \<Rightarrow> (Raise e, [], s2)
                | (Inr kid, s2) \<Rightarrow> create_probe w kid s2))
      | DESTROY \<Rightarrow>
          (if kernel_registry s (req_kernel_id req) \<noteq> None
           then (case destroy_kernel (kernel_driver s) (child w) (req_kernel_id req) s of
                   (None, s1) \<Rightarrow> (Hang, [], s1)
                 | (Some (Inl e), s1) \<Rightarrow> (Raise e, [], s1)
                 | (Some (Inr u), s1) \<Rightarrow>
                     (Continue,
                      [Write \<lparr>reply = SUCCESS, resp_kernel_id = req_kernel_id req,
                              resp_body = Text []\<rparr>], s1))
           else (Continue,
                 [Write \<lparr>reply = INVALID_INPUT, resp_kernel_id = [],
                         resp_body = Text ''No such kernel.''\<rparr>], s)))"

text \<open>
  \<open>handle_api\<close> is \<^verbatim>\<open>while True\<close> around \<^verbatim>\<open>server.read()\<close> and the body above. It is
  run on the requests that arrive, each with what the outside answers while it is served.
  When they are used up the coroutine waits in \<^verbatim>\<open>server.read()\<close>.
\<close>

datatype outcome = AwaitingRead | Returned | Raised error | Hung

fun handle_api :: "(world \<times> ManagerRequest) list \<Rightarrow> manager \<Rightarrow> outcome \<times> effect list \<times> manager" where
  "handle_api [] s = (AwaitingRead, [], s)"
| "handle_api ((w, req) # rest) s =
     (case handle_request w req s of
        (Continue, tr, s1) \<Rightarrow>
          (case handle_api rest s1 of (out, tr2, s2) \<Rightarrow> (out, Read req # tr @ tr2, s2))
      | (Return, tr, s1) \<Rightarrow> (Returned, Read req # tr, s1)
      | (Raise e, tr, s1) \<Rightarrow> (Raised e, Read req # tr, s1)
      | (Hang, tr, s1) \<Rightarrow> (Hung, Read req # tr, s1))"

section \<open>The event dispatcher (sorna/gateway/events.py)\<close>

text \<open>
  A registered handler is a coroutine function or another callable; a coroutine object
  is not callable. A handler is named by a string.
\<close>

datatype callback = CoroutineFunction string | PlainCallable string | CoroutineObject string

text \<open>\<open>handlers\<close> is a \<^verbatim>\<open>defaultdict(list)\<close>: reading a missing key stores and yields \<open>[]\<close>.\<close>

record EventDispatcher =
  handlers :: "string \<rightharpoonup> callback list"

definition handlers_get :: "string \<Rightarrow> EventDispatcher \<Rightarrow> callback list \<times> EventDispatcher" where
  "handlers_get event_name d =
     (case handlers d event_name of
        None \<Rightarrow> ([], d\<lparr>handlers := (handlers d)(event_name \<mapsto> [])\<rparr>)
      | Some hs \<Rightarrow> (hs, d))"

definition add_handler :: "string \<Rightarrow> callback \<Rightarrow> EventDispatcher \<Rightarrow> error + EventDispatcher" where
  "add_handler event_name cb d =
     (case cb of
        CoroutineObject n \<Rightarrow> Inl (AssertionError ''callable(callback)'')
      | _ \<Rightarrow>
          (case handlers_get event_name d of
             (hs, d1) \<Rightarrow> Inr (d1\<lparr>handlers := (handlers d1)(event_name \<mapsto> hs @ [cb])\<rparr>)))"

text \<open>
  What \<open>dispatch\<close> hands to the event loop: \<^verbatim>\<open>loop.create_task(handler(app, agent_id, *args))\<close>
  or \<^verbatim>\<open>loop.call_soon(functools.partial(handler, app, agent_id, *args))\<close>, with the handler's
  name, the agent id and the arguments.
\<close>

datatype scheduled =
  CreateTask string string "string list"
  | CallSoon string string "string list"

text \<open>
  The loop of \<open>dispatch\<close> over the handlers of the event. The module imports asyncio,
  defaultdict, logging, time, aiotools, aiozmq, zmq, msgpack and catch_unexpected, and not
  \<open>functools\<close>: the \<^verbatim>\<open>else\<close> branch raises \<open>NameError\<close> when it evaluates
  \<^verbatim>\<open>functools.partial\<close>, before \<^verbatim>\<open>call_soon\<close>. Calling a coroutine object raises
  \<open>TypeError\<close>. What was scheduled before the exception stays scheduled.
\<close>

fun dispatch_loop :: "callback list \<Rightarrow> string \<Rightarrow> string list \<Rightarrow> error option \<times> scheduled list" where
  "dispatch_loop [] agent_id args = (None, [])"
| "dispatch_loop (CoroutineFunction n # hs) agent_id args =
     (case dispatch_loop hs agent_id args of
        (e, sch) \<Rightarrow> (e, CreateTask n agent_id args # sch))"
| "dispatch_loop (CoroutineObject n # hs) agent_id args = (Some TypeError, [])"
| "dispatch_loop (PlainCallable n # hs) agent_id args = (Some (NameError ''functools''), [])"

text \<open>
  What \<^verbatim>\<open>msgpack.unpackb\<close> yields for the third part of a frame: a list, or a map with
  string keys. The first statement of \<open>dispatch\<close>,
  \<^verbatim>\<open>first_arg = f', {args[0]}' if args else ''\<close>, reads \<^verbatim>\<open>args[0]\<close> when \<open>args\<close> is not
  empty: the first item of a list, and \<open>KeyError\<close> for a map, which has no key 0.
  \<^verbatim>\<open>*args\<close> passes the items of a list and the keys of a map.
\<close>

datatype args = ArgList "string list" | ArgMap "(string \<times> string) list"

fun first_arg :: "args \<Rightarrow> error + unit" where
  "first_arg (ArgList xs) = Inr ()"
| "first_arg (ArgMap []) = Inr ()"
| "first_arg (ArgMap (kv # kvs)) = Inl KeyError"

fun spread :: "args \<Rightarrow> string list" where
  "spread (ArgList xs) = xs"
| "spread (ArgMap kvs) = map fst kvs"

definition dispatch ::
  "string \<Rightarrow> string \<Rightarrow> args \<Rightarrow> EventDispatcher
     \<Rightarrow> (error option \<times> scheduled list) \<times> EventDispatcher" where
  "dispatch event_name agent_id args d =
     (case first_arg args of
        Inl e \<Rightarrow> ((Some e, []), d)
      | Inr u \<Rightarrow>
          (case handlers_get event_name d of
             (hs, d1) \<Rightarrow> (dispatch_loop hs agent_id (spread args), d1)))"

text \<open>
  What \<^verbatim>\<open>event_sock.read()\<close> yields: a frame that decodes to an event name, an agent id
  and arguments, a frame that does not decode, or the cancellation of the task.
\<close>

datatype incoming = Frame string string args | Undecodable | Cancel

text \<open>
  How the subscriber stands after the frames: waiting in \<^verbatim>\<open>read()\<close>, or closed (after
  \<open>CancelledError\<close>, or after an exception that the bare \<^verbatim>\<open>except\<close> logs).
\<close>

datatype subscriber = AwaitingFrame | Cancelled | Failed error

fun event_subscriber ::
  "incoming list \<Rightarrow> EventDispatcher \<Rightarrow> subscriber \<times> scheduled list \<times> EventDispatcher" where
  "event_subscriber [] d = (AwaitingFrame, [], d)"
| "event_subscriber (Cancel # fs) d = (Cancelled, [], d)"
| "event_subscriber (Undecodable # fs) d = (Failed DecodeError, [], d)"
| "event_subscriber (Frame event_name agent_id args # fs) d =
     (case dispatch event_name agent_id args d of
        ((None, sch), d1) \<Rightarrow>
          (case event_subscriber fs d1 of (out, sch2, d2) \<Rightarrow> (out, sch @ sch2, d2))
      | ((Some e, sch), d1) \<Rightarrow> (Failed e, sch, d1))"

section \<open>Predicates used in the properties\<close>

text \<open>
  The availability filter in the specification's words: the current count is below the
  maximum, and for the local driver the address is the loopback address.
\<close>

definition available :: "KernelDriverTypes \<Rightarrow> Instance \<Rightarrow> bool" where
  "available drv i =
     (cur_kernels i < max_kernels i \<and> (drv = local \<longrightarrow> ip i = ''127.0.0.1''))"

text \<open>The state in which the counter of the instance at \<open>r\<close> is one higher.\<close>

definition taken :: "ref \<Rightarrow> manager \<Rightarrow> manager" where
  "taken r s = s\<lparr>heap := (heap s)(r := (heap s r)\<lparr>cur_kernels := cur_kernels (heap s r) + 1\<rparr>)\<rparr>"

text \<open>The capacity assertion of each driver, and the \<open>AssertionError\<close> it raises.\<close>

definition capacity_ok :: "KernelDriverTypes \<Rightarrow> Instance \<Rightarrow> bool" where
  "capacity_ok drv i =
     (case drv of
        local \<Rightarrow> max_kernels i < int (length AgentPortRange)
      | docker \<Rightarrow> max_kernels i \<le> int (length AgentPortRange))"

definition capacity_error :: "KernelDriverTypes \<Rightarrow> error" where
  "capacity_error drv =
     (case drv of
        local \<Rightarrow> AssertionError ''instance.max_kernels < len(AgentPortRange)''
      | docker \<Rightarrow> AssertionError ''instance.max_kernels <= len(AgentPortRange)'')"

text \<open>
  The id that \<open>create_kernel\<close> composes: \<^verbatim>\<open>'local/{0}'.format(unique_id)\<close> and
  \<^verbatim>\<open>'docker-{0}/{1}'.format(instance.ip, container.id)\<close>.
\<close>

definition new_kernel_id :: "KernelDriverTypes \<Rightarrow> Instance \<Rightarrow> string \<Rightarrow> string" where
  "new_kernel_id drv i fresh =
     (case drv of
        local \<Rightarrow> ''local/'' @ fresh
      | docker \<Rightarrow> ''docker-'' @ ip i @ ''/'' @ fresh)"

text \<open>The effects that are calls of \<open>ping_kernel\<close>.\<close>

fun is_ping :: "effect \<Rightarrow> bool" where
  "is_ping (Ping k) = True"
| "is_ping e = False"

text \<open>
  The invariant of the kernel registry: every key is the \<open>kernel_id\<close> of the record stored
  under it.
\<close>

definition registry_keys_ok :: "manager \<Rightarrow> bool" where
  "registry_keys_ok s = (\<forall>kid k. kernel_registry s kid = Some k \<longrightarrow> kernel_id k = kid)"

text \<open>
  The effects that write a FAILURE response, and the traces without one.
\<close>

fun is_failure :: "effect \<Rightarrow> bool" where
  "is_failure (Write resp) = (reply resp = FAILURE)"
| "is_failure e = False"

definition quiet :: "effect list \<Rightarrow> bool" where
  "quiet tr = (\<forall>x\<in>set tr. \<not> is_failure x)"

text \<open>
  The kernels registered on an instance, and the agreement of the registered records
  with their instances: the registry is finite; the agent port of every record is among
  the occupied ports of its instance, and with the local driver its handle is a process;
  two records on one instance have different agent ports; and an instance's count is at
  least the number of records registered on it.
\<close>

definition kernels_on :: "manager \<Rightarrow> ref \<Rightarrow> string set" where
  "kernels_on s r = {kid. \<exists>k. kernel_registry s kid = Some k \<and> instance_ref k = r}"

definition consistent :: "manager \<Rightarrow> bool" where
  "consistent s \<longleftrightarrow>
     finite (dom (kernel_registry s))
     \<and> (\<forall>kid k. kernel_registry s kid = Some k \<longrightarrow>
           (\<exists>host p u. agent_sock k = Some (TcpSock host p)
              \<and> used_ports (heap s (instance_ref k)) = Some u \<and> p |\<in>| u)
           \<and> (kernel_driver s = local \<longrightarrow> (\<exists>a b. priv k = Process a b)))
     \<and> (\<forall>kid kid' k k'. kernel_registry s kid = Some k \<and> kernel_registry s kid' = Some k'
           \<and> instance_ref k = instance_ref k' \<and> url_port (agent_sock k) = url_port (agent_sock k')
           \<longrightarrow> kid = kid')
     \<and> (\<forall>r. int (card (kernels_on s r)) \<le> cur_kernels (heap s r))"

text \<open>
  The state in which the counter of the instance at \<open>r\<close> is one lower, and the states
  without kernels: the registry is empty and no count is negative.
\<close>

definition lowered :: "ref \<Rightarrow> manager \<Rightarrow> manager" where
  "lowered r s = s\<lparr>heap := (heap s)(r := (heap s r)\<lparr>cur_kernels := cur_kernels (heap s r) - 1\<rparr>)\<rparr>"

definition no_kernels :: "manager \<Rightarrow> bool" where
  "no_kernels s \<longleftrightarrow> kernel_registry s = Map.empty \<and> (\<forall>r. 0 \<le> cur_kernels (heap s r))"

section \<open>Example states and requests\<close>

text \<open>
  \<^verbatim>\<open>Instance(ip=a)\<close> with the defaults of the namedlist, and an instance with given
  capacity, count and ports.
\<close>

definition new_instance :: "string \<Rightarrow> Instance" where
  "new_instance a =
     \<lparr>ip = a, docker_port = 2375, tag = [], max_kernels = 2, cur_kernels = 0, used_ports = None\<rparr>"

definition instance_with :: "string \<Rightarrow> int \<Rightarrow> int \<Rightarrow> int fset option \<Rightarrow> Instance" where
  "instance_with a m c u =
     \<lparr>ip = a, docker_port = 2375, tag = [], max_kernels = m, cur_kernels = c, used_ports = u\<rparr>"

text \<open>
  The module state when \<open>main\<close> has chosen the driver: the registry holds the instance
  \<^verbatim>\<open>'test': Instance(ip='127.0.0.1')\<close> and no kernel.
\<close>

definition initial :: "KernelDriverTypes \<Rightarrow> manager" where
  "initial drv =
     \<lparr>kernel_driver = drv, heap = (\<lambda>r. new_instance ''127.0.0.1''),
      instance_registry = [(''test'', 0)], kernel_registry = Map.empty\<rparr>"

text \<open>
  Three instances: a remote one with room, a local one that is full, a local one with
  room.
\<close>

definition pool :: "KernelDriverTypes \<Rightarrow> manager" where
  "pool drv =
     \<lparr>kernel_driver = drv,
      heap = (\<lambda>r. if r = 0 then instance_with ''10.0.0.1'' 2 0 None
                   else if r = 1 then instance_with ''127.0.0.1'' 2 2 None
                   else instance_with ''127.0.0.1'' 2 1 None),
      instance_registry = [(''a'', 0), (''b'', 1), (''c'', 2)],
      kernel_registry = Map.empty\<rparr>"

text \<open>A pool whose instances are all full.\<close>

definition full_pool :: "KernelDriverTypes \<Rightarrow> manager" where
  "full_pool drv =
     \<lparr>kernel_driver = drv, heap = (\<lambda>r. instance_with ''127.0.0.1'' 2 2 None),
      instance_registry = [(''a'', 0), (''b'', 1)], kernel_registry = Map.empty\<rparr>"

text \<open>
  An instance whose maximum is the size of the port range, about to receive its eighth
  kernel: \<open>find_avail_instance\<close> has raised the count to 8 and seven ports are occupied.
\<close>

definition eighth :: manager where
  "eighth =
     \<lparr>kernel_driver = docker,
      heap = (\<lambda>r. instance_with ''127.0.0.1'' 8 8
                     (Some {|5002, 5003, 5004, 5005, 5006, 5007, 5008|})),
      instance_registry = [(''test'', 0)], kernel_registry = Map.empty\<rparr>"

text \<open>
  A CREATE request; an outside where no heartbeat is ever answered; an outside where the
  third heartbeat is the first one answered. In both the child exits when terminated.
\<close>

definition create_request :: ManagerRequest where
  "create_request = \<lparr>action = CREATE, req_kernel_id = [], req_body = []\<rparr>"

definition dead_world :: world where
  "dead_world =
     \<lparr>fresh_id = ''u1'', ping_ok = (\<lambda>n. False), sock_info = Map.empty, child = Exits\<rparr>"

definition slow_world :: world where
  "slow_world = \<lparr>fresh_id = ''u1'', ping_ok = (\<lambda>n. n = 2),
     sock_info = [''stdin'' \<mapsto> ''in'', ''stdout'' \<mapsto> ''out'', ''stderr'' \<mapsto> ''err''],
     child = Exits\<rparr>"

text \<open>A PING request and a DESTROY request for a kernel id.\<close>

definition ping_request :: ManagerRequest where
  "ping_request = \<lparr>action = PING, req_kernel_id = [], req_body = ''abc''\<rparr>"

definition destroy_request :: "string \<Rightarrow> ManagerRequest" where
  "destroy_request kid = \<lparr>action = DESTROY, req_kernel_id = kid, req_body = []\<rparr>"

text \<open>
  The record and the state that the local driver's \<open>create_kernel\<close> leaves from
  \<open>initial local\<close> with the identifier \<open>u1\<close>, once \<open>find_avail_instance\<close> has chosen the
  instance.
\<close>

definition kernel_u1 :: Kernel where
  "kernel_u1 =
     \<lparr>instance_ref = 0, kernel_id = ''local/u1'', spec = ''python34'',
      agent_sock = Some (TcpSock ''127.0.0.1'' 5002),
      stdin_sock = None, stdout_sock = None, stderr_sock = None,
      priv = Process ''local/u1'' 5002\<rparr>"

definition one_kernel :: manager where
  "one_kernel =
     \<lparr>kernel_driver = local,
      heap = (\<lambda>r. new_instance ''127.0.0.1'')
               (0 := instance_with ''127.0.0.1'' 2 1 (Some {|5002|})),
      instance_registry = [(''test'', 0)],
      kernel_registry = [''local/u1'' \<mapsto> kernel_u1]\<rparr>"

text \<open>The state after a second kernel is created there, with the identifier \<open>u2\<close>.\<close>

definition two_kernels :: manager where
  "two_kernels = snd (create_kernel local ''u2'' 0 (taken 0 one_kernel))"

text \<open>
  The record and the state after a CREATE that succeeded: the endpoints are those of
  \<open>slow_world\<close>.
\<close>

definition ready_u1 :: Kernel where
  "ready_u1 = kernel_u1\<lparr>stdin_sock := Some ''in'', stdout_sock := Some ''out'',
                         stderr_sock := Some ''err''\<rparr>"

definition ready_kernel :: manager where
  "ready_kernel = one_kernel\<lparr>kernel_registry := [''local/u1'' \<mapsto> ready_u1]\<rparr>"

text \<open>
  The state that the docker driver's \<open>create_kernel\<close> leaves from \<open>initial docker\<close> with
  the container id \<open>c1\<close>.
\<close>

definition kernel_c1 :: Kernel where
  "kernel_c1 =
     \<lparr>instance_ref = 0, kernel_id = ''docker-127.0.0.1/c1'', spec = ''python34'',
      agent_sock = Some (TcpSock ''127.0.0.1'' 5002),
      stdin_sock = None, stdout_sock = None, stderr_sock = None,
      priv = Container ''c1''\<rparr>"

definition one_docker_kernel :: manager where
  "one_docker_kernel =
     \<lparr>kernel_driver = docker,
      heap = (\<lambda>r. new_instance ''127.0.0.1'')
               (0 := instance_with ''127.0.0.1'' 2 1 (Some {|5002|})),
      instance_registry = [(''test'', 0)],
      kernel_registry = [''docker-127.0.0.1/c1'' \<mapsto> kernel_c1]\<rparr>"

text \<open>An outside for the docker driver: the daemon answers the container id \<open>c1\<close>.\<close>

definition docker_world :: world where
  "docker_world =
     \<lparr>fresh_id = ''c1'', ping_ok = (\<lambda>n. True), sock_info = Map.empty, child = Exits\<rparr>"

text \<open>
  A dispatcher with one handler that is not a coroutine function, as
  \<open>add_handler\<close> builds it, and one where such a handler stands between two coroutine
  functions.
\<close>

definition plain_dispatcher :: EventDispatcher where
  "plain_dispatcher = \<lparr>handlers = [''instance_heartbeat'' \<mapsto> [PlainCallable ''on_heartbeat'']]\<rparr>"

definition mixed_dispatcher :: EventDispatcher where
  "mixed_dispatcher =
     \<lparr>handlers = [''kernel_terminated'' \<mapsto>
        [CoroutineFunction ''first'', PlainCallable ''second'', CoroutineFunction ''third'']]\<rparr>"

text \<open>An outside where the child has exited before the DESTROY.\<close>

definition gone_world :: world where
  "gone_world =
     \<lparr>fresh_id = ''u9'', ping_ok = (\<lambda>n. False), sock_info = Map.empty, child = Gone\<rparr>"

section \<open>Properties\<close>

subsection \<open>The port range and the port loop\<close>

lemma AgentPortRange_set: "set AgentPortRange = {5002..5009}"
  by (simp only: AgentPortRange_def set_upto)

lemma AgentPortRange_length: "length AgentPortRange = 8"
  by (simp add: AgentPortRange_def)

lemma AgentPortRange_sorted: "sorted AgentPortRange"
  by (simp only: AgentPortRange_def sorted_upto)

lemma AgentPortRange_distinct: "distinct AgentPortRange"
  by (simp only: AgentPortRange_def distinct_upto)

lemma in_range_iff: "q \<in> set AgentPortRange \<longleftrightarrow> 5002 \<le> q \<and> q < 5010"
  by (auto simp add: AgentPortRange_set)

lemma pick_port_none: "\<forall>q\<in>set ps. q |\<in>| used \<Longrightarrow> pick_port ps used = (0, used)"
  by (induction ps) simp_all

lemma pick_port_least:
  "sorted ps \<Longrightarrow> q \<in> set ps \<Longrightarrow> q |\<notin>| used
     \<Longrightarrow> \<exists>p. pick_port ps used = (p, finsert p used) \<and> p \<in> set ps \<and> p |\<notin>| used
           \<and> (\<forall>q'\<in>set ps. q' |\<notin>| used \<longrightarrow> p \<le> q')"
proof (induction ps)
  case Nil
  then show ?case by simp
next
  case (Cons a ps)
  show ?case
  proof (cases "a |\<in>| used")
    case True
    with Cons.prems have "q \<in> set ps" by auto
    with Cons True show ?thesis by auto
  next
    case False
    with Cons.prems show ?thesis by auto
  qed
qed

text \<open>Fewer occupied ports than ports in the list: one of the list is free.\<close>

lemma free_port_exists:
  assumes "distinct ps" "fcard used < length ps"
  shows "\<exists>q\<in>set ps. q |\<notin>| used"
proof (rule ccontr)
  assume "\<not> (\<exists>q\<in>set ps. q |\<notin>| used)"
  then have "set ps \<subseteq> fset used" by auto
  then have "card (set ps) \<le> card (fset used)"
    by (simp add: card_mono)
  with assms show False
    by (simp add: distinct_card fcard.rep_eq)
qed

subsection \<open>find\_avail\_instance\<close>

lemma docker_scan_none:
  "\<forall>x\<in>set rs. \<not> available docker (heap s x) \<Longrightarrow> docker_scan rs s = (None, s)"
  by (induction rs) (simp_all add: available_def)

lemma docker_scan_first:
  "\<forall>x\<in>set pre. \<not> available docker (heap s x) \<Longrightarrow> available docker (heap s r)
     \<Longrightarrow> docker_scan (pre @ r # post) s = (Some r, taken r s)"
  by (induction pre) (simp_all add: available_def taken_def set_instance_def)

lemma local_scan_none:
  "\<forall>x\<in>set rs. \<not> available local (heap s x) \<Longrightarrow> local_scan rs s = (None, s)"
  by (induction rs) (auto simp add: available_def)

lemma local_scan_first:
  "\<forall>x\<in>set pre. \<not> available local (heap s x) \<Longrightarrow> available local (heap s r)
     \<Longrightarrow> local_scan (pre @ r # post) s = (Some r, taken r s)"
  by (induction pre) (auto simp add: available_def taken_def set_instance_def)

lemma find_avail_instance_none:
  "\<forall>x\<in>set (map snd (instance_registry s)). \<not> available drv (heap s x)
     \<Longrightarrow> find_avail_instance drv s = (None, s)"
  by (cases drv)
     (simp_all add: LocalKernelDriver_find_avail_instance_def
        DockerKernelDriver_find_avail_instance_def local_scan_none docker_scan_none)

lemma find_avail_instance_first:
  "map snd (instance_registry s) = pre @ r # post
     \<Longrightarrow> \<forall>x\<in>set pre. \<not> available drv (heap s x) \<Longrightarrow> available drv (heap s r)
     \<Longrightarrow> find_avail_instance drv s = (Some r, taken r s)"
  by (cases drv)
     (simp_all add: LocalKernelDriver_find_avail_instance_def
        DockerKernelDriver_find_avail_instance_def local_scan_first docker_scan_first)

text \<open>
  Claim C6. \<open>find_avail_instance\<close> returns the first instance, in the iteration order of
  the registry, whose current count is below its maximum (for the local driver: among
  the instances at 127.0.0.1), and the state it leaves differs from the one before only
  in that this instance's count is one higher. When no instance qualifies it returns
  \<open>None\<close> and the state is the one before.
\<close>

theorem find_avail_instance_first_match:
  "(\<forall>pre r post.
      map snd (instance_registry s) = pre @ r # post
        \<and> (\<forall>x\<in>set pre. \<not> available drv (heap s x)) \<and> available drv (heap s r)
      \<longrightarrow> find_avail_instance drv s = (Some r, taken r s))
   \<and> ((\<forall>x\<in>set (map snd (instance_registry s)). \<not> available drv (heap s x))
      \<longrightarrow> find_avail_instance drv s = (None, s))"
  using find_avail_instance_first [of s _ _ _ drv] find_avail_instance_none [of s drv]
  by blast

theorem find_avail_instance_first_match_witness:
  "find_avail_instance local (pool local) = (Some 2, taken 2 (pool local))
   \<and> cur_kernels (heap (snd (find_avail_instance local (pool local))) 2) = 2
   \<and> find_avail_instance docker (pool docker) = (Some 0, taken 0 (pool docker))
   \<and> find_avail_instance local (full_pool local) = (None, full_pool local)"
proof -
  have m: "map snd (instance_registry (pool local)) = [0, 1] @ 2 # []"
    by (simp add: pool_def)
  have p: "\<forall>x\<in>set [0, 1]. \<not> available local (heap (pool local) x)"
    by (simp add: pool_def available_def instance_with_def)
  have a: "available local (heap (pool local) 2)"
    by (simp add: pool_def available_def instance_with_def)
  from find_avail_instance_first_match [of "pool local" local] m p a
  have l: "find_avail_instance local (pool local) = (Some 2, taken 2 (pool local))"
    by blast
  have m': "map snd (instance_registry (pool docker)) = [] @ 0 # [1, 2]"
    by (simp add: pool_def)
  have a': "available docker (heap (pool docker) 0)"
    by (simp add: pool_def available_def instance_with_def)
  from find_avail_instance_first_match [of "pool docker" docker] m' a'
  have d: "find_avail_instance docker (pool docker) = (Some 0, taken 0 (pool docker))"
    by (metis empty_iff list.set(1))
  have f: "\<forall>x\<in>set (map snd (instance_registry (full_pool local))).
             \<not> available local (heap (full_pool local) x)"
    by (simp add: full_pool_def available_def instance_with_def)
  from find_avail_instance_first_match [of "full_pool local" local] f
  have n: "find_avail_instance local (full_pool local) = (None, full_pool local)"
    by blast
  from l have "cur_kernels (heap (snd (find_avail_instance local (pool local))) 2) = 2"
    by (simp add: taken_def pool_def instance_with_def)
  with l d n show ?thesis by simp
qed

subsection \<open>create\_kernel: the capacity assertion and the port\<close>

lemma ports_of_init [simp]: "ports_of (init_used_ports i) = ports_of i"
  by (simp add: ports_of_def init_used_ports_def split: option.splits)

lemma max_kernels_init [simp]: "max_kernels (init_used_ports i) = max_kernels i"
  by (simp add: init_used_ports_def split: option.splits)

lemma create_kernel_capacity:
  "\<not> capacity_ok drv (heap s r)
     \<Longrightarrow> create_kernel drv fresh r s = (Inl (capacity_error drv), set_instance r (init_used_ports (heap s r)) s)"
  by (cases drv)
     (simp_all add: capacity_ok_def capacity_error_def DockerKernelDriver_create_kernel_def
        LocalKernelDriver_create_kernel_def Let_def)

lemma create_kernel_reserves:
  assumes "capacity_ok drv (heap s r)"
    and "pick_port AgentPortRange (ports_of (heap s r)) = (p, used')" and "p \<noteq> 0"
  shows "used_ports (heap (snd (create_kernel drv fresh r s)) r) = Some used'
    \<and> fst (create_kernel drv fresh r s) \<noteq> Inl (AssertionError ''agent_port != 0'')
    \<and> fst (create_kernel drv fresh r s) \<noteq> Inl (capacity_error drv)"
  using assms
  by (cases drv)
     (simp_all add: capacity_ok_def capacity_error_def DockerKernelDriver_create_kernel_def
        LocalKernelDriver_create_kernel_def Let_def set_instance_def)

lemma ip_init [simp]: "ip (init_used_ports i) = ip i"
  by (simp add: init_used_ports_def split: option.splits)

lemma create_kernel_places:
  assumes "capacity_ok drv (heap s r)"
    and "pick_port AgentPortRange (ports_of (heap s r)) = (p, used')" and "p \<noteq> 0"
  shows "\<exists>k. kernel_registry (snd (create_kernel drv fresh r s))
              (new_kernel_id drv (heap s r) fresh) = Some k
           \<and> instance_ref k = r \<and> agent_sock k = Some (TcpSock (ip (heap s r)) p)"
  using assms
  by (cases drv)
     (simp_all add: capacity_ok_def new_kernel_id_def DockerKernelDriver_create_kernel_def
        LocalKernelDriver_create_kernel_def Let_def set_instance_def)

text \<open>
  Claim C7. When the capacity assertion holds and some port of the range 5002, ..., 5009
  is not occupied, \<open>create_kernel\<close> adds to the instance's occupied ports the smallest
  port of the range that is not occupied. An instance whose maximum equals the size of
  the port range passes the assertion of the docker driver and fails the strict one of
  the local driver. When the occupied ports number one less than the current count and
  the current count is at most the maximum, an instance that passes the capacity
  assertion has a free port in the range, and \<open>create_kernel\<close> never raises the
  assertion \<^verbatim>\<open>agent_port != 0\<close>.
\<close>

theorem create_kernel_port_reservation:
  "(capacity_ok drv (heap s r) \<and> 5002 \<le> q \<and> q < 5010 \<and> q |\<notin>| ports_of (heap s r)
      \<longrightarrow> (\<exists>p. 5002 \<le> p \<and> p < 5010 \<and> p |\<notin>| ports_of (heap s r)
            \<and> (\<forall>q'. 5002 \<le> q' \<and> q' < 5010 \<and> q' |\<notin>| ports_of (heap s r) \<longrightarrow> p \<le> q')
            \<and> used_ports (heap (snd (create_kernel drv fresh r s)) r)
                = Some (finsert p (ports_of (heap s r)))
            \<and> (\<exists>k. kernel_registry (snd (create_kernel drv fresh r s))
                       (new_kernel_id drv (heap s r) fresh) = Some k
                  \<and> instance_ref k = r
                  \<and> agent_sock k = Some (TcpSock (ip (heap s r)) p))))
   \<and> (max_kernels (heap s r) = int (length AgentPortRange)
      \<longrightarrow> fst (create_kernel docker fresh r s) \<noteq> Inl (capacity_error docker)
        \<and> fst (create_kernel local fresh r s) = Inl (capacity_error local))
   \<and> (int (fcard (ports_of (heap s r))) = cur_kernels (heap s r) - 1
        \<and> cur_kernels (heap s r) \<le> max_kernels (heap s r)
      \<longrightarrow> (capacity_ok drv (heap s r)
             \<longrightarrow> (\<exists>p. 5002 \<le> p \<and> p < 5010 \<and> p |\<notin>| ports_of (heap s r)))
          \<and> fst (create_kernel drv fresh r s) \<noteq> Inl (AssertionError ''agent_port != 0''))"
  (is "?A \<and> ?B \<and> ?C")
proof (intro conjI)
  show ?A
  proof (intro impI, elim conjE)
    assume cap: "capacity_ok drv (heap s r)"
      and q: "5002 \<le> q" "q < 5010" "q |\<notin>| ports_of (heap s r)"
    from q have "q \<in> set AgentPortRange"
      by (simp add: in_range_iff)
    from pick_port_least [OF AgentPortRange_sorted this q(3)]
    obtain p where p: "pick_port AgentPortRange (ports_of (heap s r)) = (p, finsert p (ports_of (heap s r)))"
      "p \<in> set AgentPortRange" "p |\<notin>| ports_of (heap s r)"
      "\<forall>q'\<in>set AgentPortRange. q' |\<notin>| ports_of (heap s r) \<longrightarrow> p \<le> q'"
      by blast
    from p(2) have "p \<noteq> 0" by (simp add: in_range_iff)
    from create_kernel_reserves [OF cap p(1) this]
    have "used_ports (heap (snd (create_kernel drv fresh r s)) r)
            = Some (finsert p (ports_of (heap s r)))"
      by simp
    moreover note create_kernel_places [OF cap p(1) \<open>p \<noteq> 0\<close>, of fresh]
    moreover from p(2) have "5002 \<le> p" "p < 5010"
      by (simp_all add: in_range_iff)
    moreover from p(4) have "\<forall>q'. 5002 \<le> q' \<and> q' < 5010 \<and> q' |\<notin>| ports_of (heap s r) \<longrightarrow> p \<le> q'"
      by (simp add: in_range_iff)
    moreover note p(3)
    ultimately show "\<exists>p. 5002 \<le> p \<and> p < 5010 \<and> p |\<notin>| ports_of (heap s r)
            \<and> (\<forall>q'. 5002 \<le> q' \<and> q' < 5010 \<and> q' |\<notin>| ports_of (heap s r) \<longrightarrow> p \<le> q')
            \<and> used_ports (heap (snd (create_kernel drv fresh r s)) r)
                = Some (finsert p (ports_of (heap s r)))
            \<and> (\<exists>k. kernel_registry (snd (create_kernel drv fresh r s))
                       (new_kernel_id drv (heap s r) fresh) = Some k
                  \<and> instance_ref k = r
                  \<and> agent_sock k = Some (TcpSock (ip (heap s r)) p))"
      by (intro exI [of _ p] conjI)
  qed
next
  show ?B
  proof
    assume m: "max_kernels (heap s r) = int (length AgentPortRange)"
    then have "\<not> capacity_ok local (heap s r)"
      by (simp add: capacity_ok_def)
    from create_kernel_capacity [OF this, of fresh]
    have l: "fst (create_kernel local fresh r s) = Inl (capacity_error local)"
      by simp
    from m have d: "fst (create_kernel docker fresh r s) \<noteq> Inl (capacity_error docker)"
      by (simp add: DockerKernelDriver_create_kernel_def capacity_error_def Let_def
            split: prod.splits)
    from l d show "fst (create_kernel docker fresh r s) \<noteq> Inl (capacity_error docker)
        \<and> fst (create_kernel local fresh r s) = Inl (capacity_error local)"
      by simp
  qed
next
  show ?C
  proof (intro impI, elim conjE)
    assume card: "int (fcard (ports_of (heap s r))) = cur_kernels (heap s r) - 1"
      and le: "cur_kernels (heap s r) \<le> max_kernels (heap s r)"
    have free: "\<exists>p\<in>set AgentPortRange. p |\<notin>| ports_of (heap s r)"
      if cap: "capacity_ok drv (heap s r)"
    proof -
      from cap have "max_kernels (heap s r) \<le> int (length AgentPortRange)"
        by (cases drv) (simp_all add: capacity_ok_def)
      with card le have "fcard (ports_of (heap s r)) < length AgentPortRange"
        by linarith
      from free_port_exists [OF AgentPortRange_distinct this] show ?thesis .
    qed
    have "fst (create_kernel drv fresh r s) \<noteq> Inl (AssertionError ''agent_port != 0'')"
    proof (cases "capacity_ok drv (heap s r)")
      case True
      from free [OF True] obtain q where q: "q \<in> set AgentPortRange" "q |\<notin>| ports_of (heap s r)"
        by blast
      from pick_port_least [OF AgentPortRange_sorted q]
      obtain p where p: "pick_port AgentPortRange (ports_of (heap s r)) = (p, finsert p (ports_of (heap s r)))"
        "p \<in> set AgentPortRange"
        by blast
      from p(2) have "p \<noteq> 0" by (simp add: in_range_iff)
      from create_kernel_reserves [OF True p(1) this] show ?thesis by simp
    next
      case False
      from create_kernel_capacity [OF False, of fresh] show ?thesis
        by (cases drv) (simp_all add: capacity_error_def)
    qed
    moreover have "\<exists>p. 5002 \<le> p \<and> p < 5010 \<and> p |\<notin>| ports_of (heap s r)"
      if "capacity_ok drv (heap s r)"
      using free [OF that] by (simp add: in_range_iff Bex_def)
    ultimately show "(capacity_ok drv (heap s r)
             \<longrightarrow> (\<exists>p. 5002 \<le> p \<and> p < 5010 \<and> p |\<notin>| ports_of (heap s r)))
          \<and> fst (create_kernel drv fresh r s) \<noteq> Inl (AssertionError ''agent_port != 0'')"
      by (intro conjI impI)
  qed
qed

lemma eighth_ports: "ports_of (heap eighth 0) = {|5002, 5003, 5004, 5005, 5006, 5007, 5008|}"
  by (simp add: eighth_def instance_with_def ports_of_def)

theorem create_kernel_port_reservation_witness:
  "capacity_ok docker (heap eighth 0) \<and> 5009 |\<notin>| ports_of (heap eighth 0)
   \<and> max_kernels (heap eighth 0) = int (length AgentPortRange)
   \<and> int (fcard (ports_of (heap eighth 0))) = cur_kernels (heap eighth 0) - 1
   \<and> cur_kernels (heap eighth 0) \<le> max_kernels (heap eighth 0)
   \<and> used_ports (heap (snd (create_kernel docker ''c0'' 0 eighth)) 0)
       = Some (finsert 5009 (ports_of (heap eighth 0)))
   \<and> (\<exists>k. kernel_registry (snd (create_kernel docker ''c0'' 0 eighth)) ''docker-127.0.0.1/c0''
           = Some k
         \<and> instance_ref k = 0 \<and> agent_sock k = Some (TcpSock ''127.0.0.1'' 5009))
   \<and> fst (create_kernel docker ''c0'' 0 eighth) \<noteq> Inl (capacity_error docker)
   \<and> fst (create_kernel local ''u0'' 0 eighth) = Inl (capacity_error local)
   \<and> fst (create_kernel docker ''c0'' 0 eighth) \<noteq> Inl (AssertionError ''agent_port != 0'')"
proof -
  have cap: "capacity_ok docker (heap eighth 0)"
    by (simp add: capacity_ok_def eighth_def instance_with_def AgentPortRange_length)
  have free: "5009 |\<notin>| ports_of (heap eighth 0)"
    by (simp add: eighth_ports)
  have mx: "max_kernels (heap eighth 0) = int (length AgentPortRange)"
    by (simp add: eighth_def instance_with_def AgentPortRange_length)
  have card: "int (fcard (ports_of (heap eighth 0))) = cur_kernels (heap eighth 0) - 1"
    by (simp add: eighth_ports fcard_finsert_if) (simp add: eighth_def instance_with_def)
  have le: "cur_kernels (heap eighth 0) \<le> max_kernels (heap eighth 0)"
    by (simp add: eighth_def instance_with_def)
  note at_eighth = create_kernel_port_reservation [of docker eighth 0 5009 "''c0''"]
  have n: "new_kernel_id docker (heap eighth 0) ''c0'' = ''docker-127.0.0.1/c0''"
    "ip (heap eighth 0) = ''127.0.0.1''"
    by (simp_all add: new_kernel_id_def eighth_def instance_with_def)
  from at_eighth cap free obtain p where p: "5002 \<le> p" "p < 5010" "p |\<notin>| ports_of (heap eighth 0)"
    "used_ports (heap (snd (create_kernel docker ''c0'' 0 eighth)) 0)
       = Some (finsert p (ports_of (heap eighth 0)))"
    "\<exists>k. kernel_registry (snd (create_kernel docker ''c0'' 0 eighth))
           (new_kernel_id docker (heap eighth 0) ''c0'') = Some k
         \<and> instance_ref k = 0 \<and> agent_sock k = Some (TcpSock (ip (heap eighth 0)) p)"
    by auto
  from p(1,2,3) have "p = 5009"
    by (simp add: eighth_ports)
  with p(4,5) have a: "used_ports (heap (snd (create_kernel docker ''c0'' 0 eighth)) 0)
       = Some (finsert 5009 (ports_of (heap eighth 0)))"
    and a': "\<exists>k. kernel_registry (snd (create_kernel docker ''c0'' 0 eighth)) ''docker-127.0.0.1/c0''
           = Some k
         \<and> instance_ref k = 0 \<and> agent_sock k = Some (TcpSock ''127.0.0.1'' 5009)"
    unfolding n by simp_all
  from create_kernel_port_reservation [of docker eighth 0 5009 "''u0''"] mx
  have b: "fst (create_kernel local ''u0'' 0 eighth) = Inl (capacity_error local)"
    by blast
  from at_eighth mx have c: "fst (create_kernel docker ''c0'' 0 eighth) \<noteq> Inl (capacity_error docker)"
    by blast
  from at_eighth card le
  have d: "fst (create_kernel docker ''c0'' 0 eighth) \<noteq> Inl (AssertionError ''agent_port != 0'')"
    by blast
  from cap free mx card le a a' b c d show ?thesis
    by blast
qed

subsection \<open>CREATE without an available instance\<close>

text \<open>
  Claim C5. When no instance of the registry passes the availability filter of the
  configured driver, a CREATE request is answered with FAILURE, an empty kernel id and
  the body "No instance is available to launch a new kernel.", and the state after the
  request is the state before it: no registry, port set or counter has changed.
\<close>

theorem create_without_instance:
  "action req = CREATE
     \<Longrightarrow> \<forall>x\<in>set (map snd (instance_registry s)). \<not> available (kernel_driver s) (heap s x)
     \<Longrightarrow> handle_request w req s =
          (Return,
           [Write \<lparr>reply = FAILURE, resp_kernel_id = [],
                   resp_body = Text ''No instance is available to launch a new kernel.''\<rparr>],
           s)"
  by (simp add: handle_request_def find_avail_instance_none no_instance_response_def)

theorem create_without_instance_witness:
  "action create_request = CREATE
   \<and> handle_request dead_world create_request (full_pool local) =
          (Return,
           [Write \<lparr>reply = FAILURE, resp_kernel_id = [],
                   resp_body = Text ''No instance is available to launch a new kernel.''\<rparr>],
           full_pool local)"
proof -
  have a: "action create_request = CREATE"
    by (simp add: create_request_def)
  have f: "\<forall>x\<in>set (map snd (instance_registry (full_pool local))).
             \<not> available (kernel_driver (full_pool local)) (heap (full_pool local) x)"
    by (simp add: full_pool_def available_def instance_with_def)
  from a create_without_instance [OF a f] show ?thesis
    by simp
qed

subsection \<open>The probe loop\<close>

lemma probe_count: "length (filter is_ping (snd (probe w kid s tries))) \<le> 5 - tries"
proof (induction w kid s tries rule: probe.induct)
  case (1 w kid s tries)
  show ?case
  proof (cases "tries < 5")
    case False
    then show ?thesis by (simp add: probe.simps)
  next
    case True
    show ?thesis
    proof (cases "ping_kernel w tries kid s")
      case (Inl e)
      with True show ?thesis by (simp add: probe.simps)
    next
      case (Inr success)
      show ?thesis
      proof (cases success)
        case True
        with \<open>tries < 5\<close> Inr show ?thesis by (simp add: probe.simps)
      next
        case False
        from "1.IH" [OF \<open>tries < 5\<close> Inr] False
        have "length (filter is_ping (snd (probe w kid s (tries + 1)))) \<le> 5 - (tries + 1)"
          by simp
        with \<open>tries < 5\<close> Inr False show ?thesis
          by (cases "probe w kid s (tries + 1)") (simp add: probe.simps [of w kid s tries])
      qed
    qed
  qed
qed

lemma probe_fail_from:
  "kernel_registry s kid \<noteq> None \<Longrightarrow> \<forall>m. tries \<le> m \<and> m < 5 \<longrightarrow> \<not> ping_ok w m
     \<Longrightarrow> probe w kid s tries = (Inr False, concat (replicate (5 - tries) [Ping kid, Sleep 1000]))"
proof (induction "5 - tries" arbitrary: tries)
  case 0
  then show ?case by (simp add: probe.simps)
next
  case (Suc k)
  then have lt: "tries < 5" and k: "k = 5 - (tries + 1)" by simp_all
  from Suc.prems lt have f: "ping_kernel w tries kid s = Inr False"
    by (auto simp add: ping_kernel_def)
  from Suc.prems have "\<forall>m. tries + 1 \<le> m \<and> m < 5 \<longrightarrow> \<not> ping_ok w m" by simp
  from Suc.hyps(1) [OF k Suc.prems(1) this]
  have "probe w kid s (tries + 1)
          = (Inr False, concat (replicate (5 - (tries + 1)) [Ping kid, Sleep 1000]))" .
  moreover from lt have "5 - tries = Suc (5 - Suc tries)" by simp
  ultimately show ?case
    using lt f by (simp add: probe.simps [of w kid s tries])
qed

lemma probe_success_from:
  "kernel_registry s kid \<noteq> None \<Longrightarrow> tries \<le> n \<Longrightarrow> n < 5 \<Longrightarrow> ping_ok w n
     \<Longrightarrow> \<forall>m. tries \<le> m \<and> m < n \<longrightarrow> \<not> ping_ok w m
     \<Longrightarrow> probe w kid s tries
          = (Inr True, concat (replicate (n - tries) [Ping kid, Sleep 1000]) @ [Ping kid])"
proof (induction "n - tries" arbitrary: tries)
  case 0
  then have "tries = n" by simp
  with 0 show ?case
    by (auto simp add: probe.simps [of w kid s n] ping_kernel_def)
next
  case (Suc k)
  then have lt: "tries < n" and k: "k = n - (tries + 1)" by simp_all
  from Suc.prems lt have f: "ping_kernel w tries kid s = Inr False"
    by (auto simp add: ping_kernel_def)
  from lt have le: "tries + 1 \<le> n" by simp
  from Suc.prems have "\<forall>m. tries + 1 \<le> m \<and> m < n \<longrightarrow> \<not> ping_ok w m" by simp
  from Suc.hyps(1) [OF k Suc.prems(1) le Suc.prems(3,4) this]
  have "probe w kid s (tries + 1)
          = (Inr True, concat (replicate (n - (tries + 1)) [Ping kid, Sleep 1000]) @ [Ping kid])" .
  moreover from lt have "n - tries = Suc (n - Suc tries)" by simp
  ultimately show ?case
    using lt f Suc.prems(3) by (simp add: probe.simps [of w kid s tries])
qed

text \<open>
  Claim C8. The probe loop calls \<open>ping_kernel\<close> at most 5 times. For a registered kernel
  it ends at the first successful ping, with a sleep of one second after each failed one
  and none after the successful one; when all pings fail it has made exactly 5 calls,
  each followed by a sleep of one second.
\<close>

theorem probe_attempts:
  "length (filter is_ping (snd (probe w kid s 0))) \<le> 5
   \<and> (kernel_registry s kid \<noteq> None \<longrightarrow>
        (\<forall>n. n < 5 \<and> ping_ok w n \<and> (\<forall>m. m < n \<longrightarrow> \<not> ping_ok w m)
           \<longrightarrow> probe w kid s 0
                = (Inr True, concat (replicate n [Ping kid, Sleep 1000]) @ [Ping kid]))
      \<and> ((\<forall>m. m < 5 \<longrightarrow> \<not> ping_ok w m)
           \<longrightarrow> probe w kid s 0 = (Inr False, concat (replicate 5 [Ping kid, Sleep 1000]))
             \<and> length (filter is_ping (snd (probe w kid s 0))) = 5))"
proof (intro conjI impI allI)
  show "length (filter is_ping (snd (probe w kid s 0))) \<le> 5"
    using probe_count [of w kid s 0] by simp
next
  fix n
  assume "kernel_registry s kid \<noteq> None"
    and "n < 5 \<and> ping_ok w n \<and> (\<forall>m. m < n \<longrightarrow> \<not> ping_ok w m)"
  then show "probe w kid s 0 = (Inr True, concat (replicate n [Ping kid, Sleep 1000]) @ [Ping kid])"
    using probe_success_from [of s kid 0 n w] by simp
next
  assume a: "kernel_registry s kid \<noteq> None" "\<forall>m. m < 5 \<longrightarrow> \<not> ping_ok w m"
  then show e: "probe w kid s 0 = (Inr False, concat (replicate 5 [Ping kid, Sleep 1000]))"
    using probe_fail_from [of s kid 0 w] by simp
  show "length (filter is_ping (snd (probe w kid s 0))) = 5"
    unfolding e by (simp add: eval_nat_numeral)
qed


theorem probe_attempts_witness:
  "kernel_registry one_kernel ''local/u1'' \<noteq> None
   \<and> probe slow_world ''local/u1'' one_kernel 0
       = (Inr True, [Ping ''local/u1'', Sleep 1000, Ping ''local/u1'', Sleep 1000, Ping ''local/u1''])
   \<and> probe dead_world ''local/u1'' one_kernel 0
       = (Inr False, [Ping ''local/u1'', Sleep 1000, Ping ''local/u1'', Sleep 1000,
                      Ping ''local/u1'', Sleep 1000, Ping ''local/u1'', Sleep 1000,
                      Ping ''local/u1'', Sleep 1000])
   \<and> length (filter is_ping (snd (probe dead_world ''local/u1'' one_kernel 0))) = 5"
proof -
  have k: "kernel_registry one_kernel ''local/u1'' \<noteq> None"
    by (simp add: one_kernel_def)
  have s: "(2::nat) < 5 \<and> ping_ok slow_world 2 \<and> (\<forall>m. m < 2 \<longrightarrow> \<not> ping_ok slow_world m)"
    by (simp add: slow_world_def)
  have d: "\<forall>m. m < 5 \<longrightarrow> \<not> ping_ok dead_world m"
    by (simp add: dead_world_def)
  from probe_attempts [of slow_world "''local/u1''" one_kernel] k s
  have "probe slow_world ''local/u1'' one_kernel 0
       = (Inr True, concat (replicate 2 [Ping ''local/u1'', Sleep 1000]) @ [Ping ''local/u1''])"
    by blast
  then have a: "probe slow_world ''local/u1'' one_kernel 0
       = (Inr True, [Ping ''local/u1'', Sleep 1000, Ping ''local/u1'', Sleep 1000, Ping ''local/u1''])"
    by (simp add: eval_nat_numeral)
  from probe_attempts [of dead_world "''local/u1''" one_kernel] k d
  have "probe dead_world ''local/u1'' one_kernel 0
       = (Inr False, concat (replicate 5 [Ping ''local/u1'', Sleep 1000]))"
    and c: "length (filter is_ping (snd (probe dead_world ''local/u1'' one_kernel 0))) = 5"
    by blast+
  then have b: "probe dead_world ''local/u1'' one_kernel 0
       = (Inr False, [Ping ''local/u1'', Sleep 1000, Ping ''local/u1'', Sleep 1000,
                      Ping ''local/u1'', Sleep 1000, Ping ''local/u1'', Sleep 1000,
                      Ping ''local/u1'', Sleep 1000])"
    by (simp add: eval_nat_numeral)
  from k a b c show ?thesis by blast
qed

subsection \<open>The example states, evaluated\<close>

text \<open>
  What the drivers and the handler compute on the example states. The properties below
  are applied to these runs.
\<close>

lemma AgentPortRange_list: "AgentPortRange = [5002, 5003, 5004, 5005, 5006, 5007, 5008, 5009]"
  by (simp add: AgentPortRange_def upto_rec_numeral)

lemmas example_defs =
  initial_def new_instance_def instance_with_def taken_def set_instance_def
  one_kernel_def kernel_u1_def one_docker_kernel_def kernel_c1_def
  dead_world_def slow_world_def create_request_def ping_request_def destroy_request_def

lemma find_initial: "find_avail_instance drv (initial drv) = (Some 0, taken 0 (initial drv))"
  by (cases drv)
     (simp_all add: LocalKernelDriver_find_avail_instance_def
        DockerKernelDriver_find_avail_instance_def example_defs)

lemma local_create_initial:
  "create_kernel local ''u1'' 0 (taken 0 (initial local)) = (Inr ''local/u1'', one_kernel)"
  by (simp add: LocalKernelDriver_create_kernel_def Let_def AgentPortRange_list ports_of_def
        init_used_ports_def example_defs)

lemma docker_create_initial:
  "create_kernel docker ''c1'' 0 (taken 0 (initial docker))
     = (Inl (NameError ''kernel_id''), one_docker_kernel)"
  by (simp add: DockerKernelDriver_create_kernel_def Let_def AgentPortRange_list ports_of_def
        init_used_ports_def example_defs)

lemma probe_dead:
  "probe dead_world ''local/u1'' one_kernel 0
       = (Inr False, [Ping ''local/u1'', Sleep 1000, Ping ''local/u1'', Sleep 1000,
                      Ping ''local/u1'', Sleep 1000, Ping ''local/u1'', Sleep 1000,
                      Ping ''local/u1'', Sleep 1000])"
  by (simp add: probe.simps ping_kernel_def one_kernel_def dead_world_def)

lemma handle_create_dead:
  "handle_request dead_world create_request (initial local) =
     (Return, [Sleep 200, Ping ''local/u1'', Sleep 1000, Ping ''local/u1'', Sleep 1000,
                      Ping ''local/u1'', Sleep 1000, Ping ''local/u1'', Sleep 1000,
                      Ping ''local/u1'', Sleep 1000, Write no_response_response], one_kernel)"
proof -
  have "kernel_driver (initial local) = local" "fresh_id dead_world = ''u1''"
    "action create_request = CREATE"
    by (simp_all add: initial_def dead_world_def create_request_def)
  then show ?thesis
    by (simp add: handle_request_def find_initial local_create_initial create_probe_def probe_dead
          del: find_avail_instance.simps create_kernel.simps)
qed

lemma handle_create_docker:
  "handle_request docker_world create_request (initial docker)
     = (Raise (NameError ''kernel_id''), [], one_docker_kernel)"
proof -
  have "kernel_driver (initial docker) = docker" "action create_request = CREATE"
    "fresh_id docker_world = ''c1''"
    by (simp_all add: initial_def create_request_def docker_world_def)
  then show ?thesis
    by (simp add: handle_request_def find_initial docker_create_initial
          del: find_avail_instance.simps create_kernel.simps)
qed

lemma two_kernels_registry:
  "kernel_registry two_kernels =
     [''local/u1'' \<mapsto> kernel_u1,
      ''local/u2'' \<mapsto> \<lparr>instance_ref = 0, kernel_id = ''local/u2'', spec = ''python34'',
          agent_sock = Some (TcpSock ''127.0.0.1'' 5003),
          stdin_sock = None, stdout_sock = None, stderr_sock = None,
          priv = Process ''local/u2'' 5003\<rparr>]"
  by (simp add: two_kernels_def LocalKernelDriver_create_kernel_def Let_def AgentPortRange_list
        ports_of_def init_used_ports_def example_defs)

lemma two_kernels_destroy:
  "kernel_registry (snd (destroy_kernel local Exits ''local/u1'' two_kernels)) ''local/u2'' \<noteq> None"
  by (simp add: two_kernels_def LocalKernelDriver_create_kernel_def Let_def AgentPortRange_list
        ports_of_def init_used_ports_def example_defs LocalKernelDriver_destroy_kernel_def
        remove_port_def)

lemma handle_api_dead:
  "handle_api [(dead_world, create_request), (dead_world, ping_request)] (initial local) =
     (Returned,
      [Read create_request, Sleep 200, Ping ''local/u1'', Sleep 1000, Ping ''local/u1'', Sleep 1000,
       Ping ''local/u1'', Sleep 1000, Ping ''local/u1'', Sleep 1000,
       Ping ''local/u1'', Sleep 1000, Write no_response_response],
      one_kernel)"
  by (simp add: handle_create_dead)

lemma handle_api_full:
  "handle_api [(dead_world, create_request), (dead_world, ping_request)] (full_pool docker) =
     (Returned, [Read create_request, Write no_instance_response], full_pool docker)"
  by (simp add: handle_request_def DockerKernelDriver_find_avail_instance_def
        full_pool_def instance_with_def create_request_def)

subsection \<open>Keys of the kernel registry\<close>

lemma kernel_registry_set_instance [simp]:
  "kernel_registry (set_instance r i s) = kernel_registry s"
  by (simp add: set_instance_def)

lemma heap_set_instance [simp]: "heap (set_instance r i s) = (heap s)(r := i)"
  by (simp add: set_instance_def)

lemma create_kernel_entry:
  "kernel_registry (snd (create_kernel drv fresh r s)) kid' = Some k
     \<Longrightarrow> kernel_registry s kid' = Some k \<or> kernel_id k = kid'"
  by (cases drv)
     (auto simp add: DockerKernelDriver_create_kernel_def LocalKernelDriver_create_kernel_def
        Let_def split: prod.splits if_splits)

lemma create_kernel_no_entry:
  "kernel_registry (snd (create_kernel drv fresh r s)) kid' = None
     \<Longrightarrow> kernel_registry s kid' = None"
  by (cases drv)
     (auto simp add: DockerKernelDriver_create_kernel_def LocalKernelDriver_create_kernel_def
        Let_def split: prod.splits if_splits)

lemma destroy_kernel_entry:
  "kernel_registry (snd (destroy_kernel drv ch kid s)) kid' = Some k
     \<Longrightarrow> kernel_registry s kid' = Some k"
  by (cases drv)
     (auto simp add: DockerKernelDriver_destroy_kernel_def LocalKernelDriver_destroy_kernel_def
        Let_def split: option.splits sum.splits handle.splits child.splits if_splits)

text \<open>
  Claim C9. If every key of the kernel registry is the \<open>kernel_id\<close> of its record, the
  same holds after \<open>create_kernel\<close> and after \<open>destroy_kernel\<close> of either driver, whatever
  their outcome. Every entry that \<open>create_kernel\<close> changes is a record stored under its own
  \<open>kernel_id\<close>, and every entry left by \<open>destroy_kernel\<close> is an entry from before.
\<close>

theorem registry_key_is_kernel_id:
  "(registry_keys_ok s
      \<longrightarrow> registry_keys_ok (snd (create_kernel drv fresh r s))
        \<and> registry_keys_ok (snd (destroy_kernel drv ch kid s)))
   \<and> (\<forall>kid'. kernel_registry (snd (create_kernel drv fresh r s)) kid' \<noteq> kernel_registry s kid'
         \<longrightarrow> (\<exists>k. kernel_registry (snd (create_kernel drv fresh r s)) kid' = Some k
                \<and> kernel_id k = kid'))
   \<and> (\<forall>kid'. kernel_registry (snd (destroy_kernel drv ch kid s)) kid' \<noteq> None
         \<longrightarrow> kernel_registry (snd (destroy_kernel drv ch kid s)) kid' = kernel_registry s kid')"
proof (intro conjI impI allI)
  assume "registry_keys_ok s"
  then show "registry_keys_ok (snd (create_kernel drv fresh r s))"
    unfolding registry_keys_ok_def using create_kernel_entry [of drv fresh r s] by blast
next
  assume "registry_keys_ok s"
  then show "registry_keys_ok (snd (destroy_kernel drv ch kid s))"
    unfolding registry_keys_ok_def using destroy_kernel_entry [of drv ch kid s] by blast
next
  fix kid'
  assume d: "kernel_registry (snd (create_kernel drv fresh r s)) kid' \<noteq> kernel_registry s kid'"
  show "\<exists>k. kernel_registry (snd (create_kernel drv fresh r s)) kid' = Some k \<and> kernel_id k = kid'"
  proof (cases "kernel_registry (snd (create_kernel drv fresh r s)) kid'")
    case None
    from create_kernel_no_entry [OF None] None d show ?thesis by simp
  next
    case (Some k)
    from create_kernel_entry [OF Some] Some d show ?thesis by auto
  qed
next
  fix kid'
  assume "kernel_registry (snd (destroy_kernel drv ch kid s)) kid' \<noteq> None"
  then obtain k where "kernel_registry (snd (destroy_kernel drv ch kid s)) kid' = Some k"
    by blast
  from this destroy_kernel_entry [OF this]
  show "kernel_registry (snd (destroy_kernel drv ch kid s)) kid' = kernel_registry s kid'"
    by simp
qed

theorem registry_key_is_kernel_id_witness:
  "registry_keys_ok two_kernels
   \<and> registry_keys_ok (snd (create_kernel local ''u3'' 0 two_kernels))
   \<and> registry_keys_ok (snd (destroy_kernel local Exits ''local/u1'' two_kernels))
   \<and> kernel_registry (snd (create_kernel local ''u2'' 0 (taken 0 one_kernel))) ''local/u2''
       \<noteq> kernel_registry (taken 0 one_kernel) ''local/u2''
   \<and> (\<exists>k. kernel_registry (snd (create_kernel local ''u2'' 0 (taken 0 one_kernel))) ''local/u2'' = Some k
         \<and> kernel_id k = ''local/u2'')
   \<and> kernel_registry (snd (destroy_kernel local Exits ''local/u1'' two_kernels)) ''local/u2''
       = kernel_registry two_kernels ''local/u2''"
proof -
  have ok: "registry_keys_ok two_kernels"
    by (simp add: registry_keys_ok_def two_kernels_registry kernel_u1_def)
  have ch: "kernel_registry (snd (create_kernel local ''u2'' 0 (taken 0 one_kernel))) ''local/u2''
       \<noteq> kernel_registry (taken 0 one_kernel) ''local/u2''"
    using two_kernels_registry by (simp add: two_kernels_def taken_def one_kernel_def)
  note a = registry_key_is_kernel_id [of two_kernels local "''u3''" 0 Exits "''local/u1''"]
  note b = registry_key_is_kernel_id [of "taken 0 one_kernel" local "''u2''" 0 Exits "''local/u1''"]
  from a ok have 1: "registry_keys_ok (snd (create_kernel local ''u3'' 0 two_kernels))"
    and 2: "registry_keys_ok (snd (destroy_kernel local Exits ''local/u1'' two_kernels))"
    by blast+
  from b ch have 3: "\<exists>k. kernel_registry (snd (create_kernel local ''u2'' 0 (taken 0 one_kernel))) ''local/u2'' = Some k
         \<and> kernel_id k = ''local/u2''"
    by blast
  from a two_kernels_destroy
  have 4: "kernel_registry (snd (destroy_kernel local Exits ''local/u1'' two_kernels)) ''local/u2''
       = kernel_registry two_kernels ''local/u2''"
    by blast
  from ok ch 1 2 3 4 show ?thesis by blast
qed

subsection \<open>A FAILURE response ends the handler\<close>

lemma probe_no_write: "\<forall>x\<in>set (snd (probe w kid s tries)). \<not> is_failure x"
proof (induction w kid s tries rule: probe.induct)
  case (1 w kid s tries)
  show ?case
  proof (cases "tries < 5")
    case False
    then show ?thesis by (simp add: probe.simps)
  next
    case True
    show ?thesis
    proof (cases "ping_kernel w tries kid s")
      case (Inl e)
      with True show ?thesis by (simp add: probe.simps)
    next
      case (Inr success)
      show ?thesis
      proof (cases success)
        case True
        with \<open>tries < 5\<close> Inr show ?thesis by (simp add: probe.simps)
      next
        case False
        from "1.IH" [OF \<open>tries < 5\<close> Inr] False
        have "\<forall>x\<in>set (snd (probe w kid s (tries + 1))). \<not> is_failure x"
          by simp
        with \<open>tries < 5\<close> Inr False show ?thesis
          by (cases "probe w kid s (tries + 1)") (simp add: probe.simps [of w kid s tries])
      qed
    qed
  qed
qed

lemma create_probe_trace:
  "create_probe w kid s = (st, tr, s')
     \<Longrightarrow> (st = Return \<longrightarrow> (\<exists>pre resp. tr = pre @ [Write resp] \<and> quiet pre))
       \<and> (st \<noteq> Return \<longrightarrow> quiet tr)"
  using probe_no_write [of w kid s 0]
  by (auto simp add: create_probe_def quiet_def success_response_def
        split: prod.splits sum.splits bool.splits option.splits)

lemma handle_request_trace:
  "handle_request w req s = (st, tr, s')
     \<Longrightarrow> (st = Return \<longrightarrow> (\<exists>pre resp. tr = pre @ [Write resp] \<and> quiet pre))
       \<and> (st \<noteq> Return \<longrightarrow> quiet tr)"
proof (cases "action req")
  case PING
  assume "handle_request w req s = (st, tr, s')"
  with PING show ?thesis
    by (auto simp add: handle_request_def quiet_def)
next
  case DESTROY
  assume "handle_request w req s = (st, tr, s')"
  with DESTROY show ?thesis
    by (auto simp add: handle_request_def quiet_def
          split: if_splits prod.splits sum.splits option.splits)
next
  case CREATE
  assume h: "handle_request w req s = (st, tr, s')"
  show ?thesis
  proof (cases "find_avail_instance (kernel_driver s) s")
    case (Pair ro s1)
    show ?thesis
    proof (cases ro)
      case None
      with h CREATE Pair have "st = Return" "tr = [] @ [Write no_instance_response]"
        by (simp_all add: handle_request_def)
      then show ?thesis by (auto simp add: quiet_def)
    next
      case (Some r)
      show ?thesis
      proof (cases "create_kernel (kernel_driver s) (fresh_id w) r s1")
        case (Pair res s2)
        show ?thesis
        proof (cases res)
          case (Inl e)
          with h CREATE \<open>find_avail_instance (kernel_driver s) s = (ro, s1)\<close> Some Pair
          show ?thesis by (auto simp add: handle_request_def quiet_def)
        next
          case (Inr kid)
          with h CREATE \<open>find_avail_instance (kernel_driver s) s = (ro, s1)\<close> Some Pair
          have "create_probe w kid s2 = (st, tr, s')"
            by (simp add: handle_request_def)
          from create_probe_trace [OF this] show ?thesis .
        qed
      qed
    qed
  qed
qed

lemma quiet_split:
  assumes "quiet xs" "xs @ ys = pre @ e # post" "is_failure e"
  shows "\<exists>pre'. ys = pre' @ e # post"
  using assms
proof (induction xs arbitrary: pre)
  case Nil
  then show ?case by auto
next
  case (Cons x xs)
  show ?case
  proof (cases pre)
    case Nil
    with Cons.prems show ?thesis by (auto simp add: quiet_def)
  next
    case (Cons p pre2)
    with Cons.prems have "quiet xs" "xs @ ys = pre2 @ e # post"
      by (auto simp add: quiet_def)
    from Cons.IH [OF this Cons.prems(3)] show ?thesis .
  qed
qed

text \<open>
  Claim C10. In every run of \<open>handle_api\<close>, a FAILURE response that it writes is the last
  thing it does: nothing is read or written after it, and the coroutine has returned.
  FAILURE is written only on the two failure paths of CREATE.
\<close>

theorem failure_ends_handler:
  "handle_api reqs s = (out, tr, s') \<Longrightarrow> tr = pre @ Write resp # post \<Longrightarrow> reply resp = FAILURE
     \<Longrightarrow> post = [] \<and> out = Returned"
proof (induction reqs arbitrary: s out tr s' pre)
  case Nil
  then show ?case by simp
next
  case (Cons a reqs)
  obtain w req where a: "a = (w, req)" by (cases a)
  obtain st tr1 s1 where h: "handle_request w req s = (st, tr1, s1)"
    by (cases "handle_request w req s")
  from Cons.prems(3) have f: "is_failure (Write resp)" by simp
  show ?case
  proof (cases st)
    case Continue
    obtain out2 tr2 s2 where r: "handle_api reqs s1 = (out2, tr2, s2)"
      by (cases "handle_api reqs s1")
    from Cons.prems(1) a h Continue r
    have e: "out = out2" "tr = (Read req # tr1) @ tr2" by simp_all
    from handle_request_trace [OF h] Continue have "quiet (Read req # tr1)"
      by (simp add: quiet_def)
    from quiet_split [OF this _ f] e(2) Cons.prems(2)
    obtain pre' where "tr2 = pre' @ Write resp # post" by metis
    from Cons.IH [OF r this Cons.prems(3)] e(1) show ?thesis by simp
  next
    case Return
    from Cons.prems(1) a h Return have e: "out = Returned" "tr = Read req # tr1" by simp_all
    from handle_request_trace [OF h] Return
    obtain p r where p: "tr1 = p @ [Write r]" "quiet p" by blast
    then have "quiet (Read req # p)" by (simp add: quiet_def)
    from quiet_split [OF this _ f, of "[Write r]" pre post] e(2) p(1) Cons.prems(2)
    obtain pre' where "[Write r] = pre' @ Write resp # post" by auto
    then have "post = []"
      by (cases pre') simp_all
    with e(1) show ?thesis by simp
  next
    case (Raise err)
    from Cons.prems(1) a h Raise have e: "tr = Read req # tr1" by simp
    from handle_request_trace [OF h] Raise have "quiet (Read req # tr1)"
      by (simp add: quiet_def)
    from quiet_split [OF this _ f, of "[]" pre post] e Cons.prems(2)
    show ?thesis by simp
  next
    case Hang
    from Cons.prems(1) a h Hang have e: "tr = Read req # tr1" by simp
    from handle_request_trace [OF h] Hang have "quiet (Read req # tr1)"
      by (simp add: quiet_def)
    from quiet_split [OF this _ f, of "[]" pre post] e Cons.prems(2)
    show ?thesis by simp
  qed
qed

theorem failure_ends_handler_witness:
  "handle_api [(dead_world, create_request), (dead_world, ping_request)] (initial local) =
     (Returned,
      [Read create_request, Sleep 200, Ping ''local/u1'', Sleep 1000, Ping ''local/u1'', Sleep 1000,
       Ping ''local/u1'', Sleep 1000, Ping ''local/u1'', Sleep 1000,
       Ping ''local/u1'', Sleep 1000] @ Write no_response_response # [],
      one_kernel)
   \<and> handle_api [(dead_world, create_request), (dead_world, ping_request)] (full_pool docker) =
     (Returned, [Read create_request] @ Write no_instance_response # [], full_pool docker)
   \<and> reply no_response_response = FAILURE \<and> reply no_instance_response = FAILURE"
proof -
  have f: "reply no_response_response = FAILURE" "reply no_instance_response = FAILURE"
    by (simp_all add: no_response_response_def no_instance_response_def)
  have a: "handle_api [(dead_world, create_request), (dead_world, ping_request)] (initial local) =
     (Returned,
      [Read create_request, Sleep 200, Ping ''local/u1'', Sleep 1000, Ping ''local/u1'', Sleep 1000,
       Ping ''local/u1'', Sleep 1000, Ping ''local/u1'', Sleep 1000,
       Ping ''local/u1'', Sleep 1000] @ Write no_response_response # [],
      one_kernel)"
    using handle_api_dead by simp
  have b: "handle_api [(dead_world, create_request), (dead_world, ping_request)] (full_pool docker) =
     (Returned, [Read create_request] @ Write no_instance_response # [], full_pool docker)"
    using handle_api_full by simp
  from failure_ends_handler [OF a refl f(1)] failure_ends_handler [OF b refl f(2)] a b f
  show ?thesis by simp
qed

subsection \<open>CREATE with a kernel that does not answer\<close>

lemma docker_scan_some: "docker_scan rs s = (Some r, s1) \<Longrightarrow> s1 = taken r s"
  by (induction rs) (auto simp add: taken_def set_instance_def split: if_splits)

lemma local_scan_some: "local_scan rs s = (Some r, s1) \<Longrightarrow> s1 = taken r s"
  by (induction rs) (auto simp add: taken_def set_instance_def split: if_splits)

lemma find_avail_instance_some: "find_avail_instance drv s = (Some r, s1) \<Longrightarrow> s1 = taken r s"
  by (cases drv)
     (simp_all add: LocalKernelDriver_find_avail_instance_def
        DockerKernelDriver_find_avail_instance_def local_scan_some docker_scan_some)

lemma pick_port_result:
  "pick_port ps used = (p, used') \<Longrightarrow> p \<noteq> 0
     \<Longrightarrow> p \<in> set ps \<and> p |\<notin>| used \<and> used' = finsert p used"
  by (induction ps) (auto split: if_splits)

lemma init_used_ports_update [simp]:
  "(init_used_ports i)\<lparr>used_ports := u\<rparr> = i\<lparr>used_ports := u\<rparr>"
  by (simp add: init_used_ports_def split: option.splits)

lemma cur_kernels_init [simp]: "cur_kernels (init_used_ports i) = cur_kernels i"
  by (simp add: init_used_ports_def split: option.splits)

lemma local_create_kernel_returns:
  assumes "LocalKernelDriver_create_kernel fresh r s = (Inr kid, s2)"
  shows "kid = ''local/'' @ fresh
    \<and> (\<exists>p. p \<in> set AgentPortRange \<and> p |\<notin>| ports_of (heap s r)
          \<and> s2 = s\<lparr>heap := (heap s)(r := (heap s r)\<lparr>used_ports := Some (finsert p (ports_of (heap s r)))\<rparr>),
                   kernel_registry := (kernel_registry s)(kid \<mapsto>
                     \<lparr>instance_ref = r, kernel_id = kid, spec = ''python34'',
                      agent_sock = Some (TcpSock (ip (heap s r)) p),
                      stdin_sock = None, stdout_sock = None, stderr_sock = None,
                      priv = Process kid p\<rparr>)\<rparr>)"
proof -
  obtain p used' where pk: "pick_port AgentPortRange (ports_of (heap s r)) = (p, used')"
    by (cases "pick_port AgentPortRange (ports_of (heap s r))")
  from assms pk have nz: "p \<noteq> 0"
    by (auto simp add: LocalKernelDriver_create_kernel_def Let_def split: if_splits)
  from pick_port_result [OF pk nz]
  have p: "p \<in> set AgentPortRange" "p |\<notin>| ports_of (heap s r)"
    "used' = finsert p (ports_of (heap s r))"
    by simp_all
  from assms pk nz p(3) have "kid = ''local/'' @ fresh"
    and "s2 = s\<lparr>heap := (heap s)(r := (heap s r)\<lparr>used_ports := Some (finsert p (ports_of (heap s r)))\<rparr>),
                   kernel_registry := (kernel_registry s)(kid \<mapsto>
                     \<lparr>instance_ref = r, kernel_id = kid, spec = ''python34'',
                      agent_sock = Some (TcpSock (ip (heap s r)) p),
                      stdin_sock = None, stdout_sock = None, stderr_sock = None,
                      priv = Process kid p\<rparr>)\<rparr>"
    by (auto simp add: LocalKernelDriver_create_kernel_def Let_def set_instance_def
          split: if_splits)
  with p(1,2) show ?thesis by blast
qed

lemma docker_create_kernel_raises:
  "fst (DockerKernelDriver_create_kernel fresh r s) \<noteq> Inr kid"
  by (simp add: DockerKernelDriver_create_kernel_def Let_def split: prod.splits)

lemma create_kernel_returns:
  assumes "create_kernel drv fresh r s = (Inr kid, s2)"
  shows "drv = local \<and> LocalKernelDriver_create_kernel fresh r s = (Inr kid, s2)"
  using assms docker_create_kernel_raises [of fresh r s kid]
  by (cases drv) auto

text \<open>
  Claim C1, amended. When an instance was found, \<open>create_kernel\<close> has returned the kernel
  id and all 5 pings fail, the manager writes FAILURE with the body "The created kernel
  did not respond!" and returns. The kernel is not destroyed: the state is the one that
  \<open>create_kernel\<close> left, where the record is in the registry, its agent port, free before
  the request, is among the instance's occupied ports, and the instance's count is one
  above its value before the request.
\<close>

theorem probe_timeout_keeps_kernel:
  assumes "action req = CREATE"
    and "find_avail_instance (kernel_driver s) s = (Some r, s1)"
    and "create_kernel (kernel_driver s) (fresh_id w) r s1 = (Inr kid, s2)"
    and "\<forall>n. n < 5 \<longrightarrow> \<not> ping_ok w n"
  shows "handle_request w req s =
           (Return,
            Sleep 200 # concat (replicate 5 [Ping kid, Sleep 1000])
              @ [Write \<lparr>reply = FAILURE, resp_kernel_id = [],
                        resp_body = Text ''The created kernel did not respond!''\<rparr>],
            s2)
    \<and> (\<exists>k host p. kernel_registry s2 kid = Some k \<and> instance_ref k = r
          \<and> agent_sock k = Some (TcpSock host p)
          \<and> p |\<notin>| ports_of (heap s r) \<and> p |\<in>| ports_of (heap s2 r))
    \<and> cur_kernels (heap s2 r) = cur_kernels (heap s r) + 1"
proof -
  from find_avail_instance_some [OF assms(2)] have s1: "s1 = taken r s" .
  from create_kernel_returns [OF assms(3)]
  have "LocalKernelDriver_create_kernel (fresh_id w) r s1 = (Inr kid, s2)" by simp
  from local_create_kernel_returns [OF this]
  obtain p where p: "p |\<notin>| ports_of (heap s1 r)"
    and s2: "s2 = s1\<lparr>heap := (heap s1)(r := (heap s1 r)\<lparr>used_ports := Some (finsert p (ports_of (heap s1 r)))\<rparr>),
                   kernel_registry := (kernel_registry s1)(kid \<mapsto>
                     \<lparr>instance_ref = r, kernel_id = kid, spec = ''python34'',
                      agent_sock = Some (TcpSock (ip (heap s1 r)) p),
                      stdin_sock = None, stdout_sock = None, stderr_sock = None,
                      priv = Process kid p\<rparr>)\<rparr>"
    by blast
  from s2 have reg: "kernel_registry s2 kid \<noteq> None" by simp
  from probe_fail_from [OF reg, of 0 w] assms(4)
  have "probe w kid s2 0 = (Inr False, concat (replicate 5 [Ping kid, Sleep 1000]))"
    by simp
  then have "create_probe w kid s2 =
     (Return, Sleep 200 # concat (replicate 5 [Ping kid, Sleep 1000]) @ [Write no_response_response], s2)"
    by (simp add: create_probe_def)
  with assms(1,2,3) have a: "handle_request w req s =
           (Return,
            Sleep 200 # concat (replicate 5 [Ping kid, Sleep 1000])
              @ [Write \<lparr>reply = FAILURE, resp_kernel_id = [],
                        resp_body = Text ''The created kernel did not respond!''\<rparr>],
            s2)"
    by (simp add: handle_request_def no_response_response_def
          del: find_avail_instance.simps create_kernel.simps)
  from p s1 have pn: "p |\<notin>| ports_of (heap s r)"
    by (simp add: taken_def ports_of_def)
  from s2 have b: "\<exists>k host p'. kernel_registry s2 kid = Some k \<and> instance_ref k = r
          \<and> agent_sock k = Some (TcpSock host p')
          \<and> p' |\<notin>| ports_of (heap s r) \<and> p' |\<in>| ports_of (heap s2 r)"
    using pn by (simp add: ports_of_def)
  from s2 s1 have c: "cur_kernels (heap s2 r) = cur_kernels (heap s r) + 1"
    by (simp add: taken_def)
  from a b c show ?thesis by blast
qed

text \<open>
  The claim as stated fails on \<open>initial local\<close> when no heartbeat is answered: after the
  FAILURE response the record \<open>local/u1\<close> is in the registry, port 5002 is occupied and the
  count is 1, where it was 0 before the request.
\<close>

theorem probe_timeout_destroys_kernel_counterexample:
  "handle_request dead_world create_request (initial local) =
     (Return, [Sleep 200, Ping ''local/u1'', Sleep 1000, Ping ''local/u1'', Sleep 1000,
               Ping ''local/u1'', Sleep 1000, Ping ''local/u1'', Sleep 1000,
               Ping ''local/u1'', Sleep 1000, Write no_response_response], one_kernel)
   \<and> kernel_registry (initial local) ''local/u1'' = None
   \<and> kernel_registry one_kernel ''local/u1'' = Some kernel_u1
   \<and> agent_sock kernel_u1 = Some (TcpSock ''127.0.0.1'' 5002)
   \<and> instance_ref kernel_u1 = 0
   \<and> used_ports (heap one_kernel 0) = Some {|5002|}
   \<and> cur_kernels (heap (initial local) 0) = 0
   \<and> cur_kernels (heap one_kernel 0) = 1"
  using handle_create_dead by (simp add: example_defs)

theorem probe_timeout_keeps_kernel_witness:
  "action create_request = CREATE
   \<and> find_avail_instance (kernel_driver (initial local)) (initial local)
       = (Some 0, taken 0 (initial local))
   \<and> create_kernel (kernel_driver (initial local)) (fresh_id dead_world) 0 (taken 0 (initial local))
       = (Inr ''local/u1'', one_kernel)
   \<and> handle_request dead_world create_request (initial local) =
       (Return,
        Sleep 200 # concat (replicate 5 [Ping ''local/u1'', Sleep 1000])
          @ [Write \<lparr>reply = FAILURE, resp_kernel_id = [],
                    resp_body = Text ''The created kernel did not respond!''\<rparr>],
        one_kernel)
   \<and> (\<exists>k host p. kernel_registry one_kernel ''local/u1'' = Some k \<and> instance_ref k = 0
          \<and> agent_sock k = Some (TcpSock host p)
          \<and> p |\<notin>| ports_of (heap (initial local) 0) \<and> p |\<in>| ports_of (heap one_kernel 0))
   \<and> cur_kernels (heap one_kernel 0) = cur_kernels (heap (initial local) 0) + 1"
proof -
  have a: "action create_request = CREATE"
    by (simp add: create_request_def)
  have d: "kernel_driver (initial local) = local" "fresh_id dead_world = ''u1''"
    by (simp_all add: initial_def dead_world_def)
  have f: "find_avail_instance (kernel_driver (initial local)) (initial local)
       = (Some 0, taken 0 (initial local))"
    unfolding d by (rule find_initial)
  have c: "create_kernel (kernel_driver (initial local)) (fresh_id dead_world) 0 (taken 0 (initial local))
       = (Inr ''local/u1'', one_kernel)"
    unfolding d by (rule local_create_initial)
  have p: "\<forall>n. n < 5 \<longrightarrow> \<not> ping_ok dead_world n"
    by (simp add: dead_world_def)
  from probe_timeout_keeps_kernel [OF a f c p] a f c show ?thesis
    by blast
qed

subsection \<open>DESTROY of a registered kernel\<close>

text \<open>
  What \<open>destroy_kernel\<close> does to a record that agrees with its instance, by the driver
  and by what becomes of the child process.
\<close>

lemma destroy_kernel_consistent:
  assumes "kernel_registry s kid = Some k"
    and "agent_sock k = Some (TcpSock host p)"
    and "used_ports (heap s (instance_ref k)) = Some u" and "p |\<in>| u"
    and "1 \<le> cur_kernels (heap s (instance_ref k))"
    and "drv = local \<longrightarrow> (\<exists>a b. priv k = Process a b)"
  defines "released \<equiv>
            s\<lparr>heap := (heap s)(instance_ref k := (heap s (instance_ref k))
                        \<lparr>cur_kernels := cur_kernels (heap s (instance_ref k)) - 1,
                         used_ports := Some (u |-| {|p|})\<rparr>),
              kernel_registry := (kernel_registry s)(kid := None)\<rparr>"
  shows "destroy_kernel drv ch kid s =
           (case drv of
              docker \<Rightarrow> (Some (Inl NotImplementedError), released)
            | local \<Rightarrow>
                (case ch of
                   Exits \<Rightarrow> (Some (Inr ()), released)
                 | Lingers \<Rightarrow> (None, lowered (instance_ref k) s)
                 | Gone \<Rightarrow> (Some (Inl ProcessLookupError), lowered (instance_ref k) s)))"
proof (cases drv)
  case local
  with assms(6) obtain a b where "priv k = Process a b" by blast
  with assms(1-5) local show ?thesis
    by (cases ch)
       (simp_all add: LocalKernelDriver_destroy_kernel_def remove_port_def Let_def
          set_instance_def lowered_def released_def)
next
  case docker
  with assms(1-5) show ?thesis
    by (simp add: DockerKernelDriver_destroy_kernel_def remove_port_def Let_def set_instance_def
          released_def)
qed

text \<open>
  The states in which the registered records agree with their instances are closed under
  every pass of the handler after which it goes on. A state without kernels is one of
  them, and so is every state in which the handler, started there, waits for a request.
\<close>

lemma kernels_on_finite: "finite (dom (kernel_registry s)) \<Longrightarrow> finite (kernels_on s r)"
  by (rule finite_subset [of _ "dom (kernel_registry s)"]) (auto simp add: kernels_on_def)

lemma consistent_initial: "consistent (initial drv)"
  by (simp add: consistent_def initial_def kernels_on_def new_instance_def)

lemma consistent_registered:
  assumes "consistent s" "kernel_registry s kid = Some k"
  shows "\<exists>host p u. agent_sock k = Some (TcpSock host p)
           \<and> used_ports (heap s (instance_ref k)) = Some u \<and> p |\<in>| u
           \<and> 1 \<le> cur_kernels (heap s (instance_ref k))
           \<and> (kernel_driver s = local \<longrightarrow> (\<exists>a b. priv k = Process a b))"
proof -
  from assms have fin: "finite (kernels_on s (instance_ref k))"
    by (simp add: consistent_def kernels_on_finite)
  from assms(2) have "kid \<in> kernels_on s (instance_ref k)"
    by (simp add: kernels_on_def)
  with fin have "1 \<le> card (kernels_on s (instance_ref k))"
    by (metis One_nat_def Suc_leI card_gt_0_iff empty_iff)
  moreover from assms(1) have "int (card (kernels_on s (instance_ref k))) \<le> cur_kernels (heap s (instance_ref k))"
    by (simp add: consistent_def)
  ultimately have "1 \<le> cur_kernels (heap s (instance_ref k))" by linarith
  with assms show ?thesis
    unfolding consistent_def by blast
qed

lemma consistent_destroy:
  assumes c: "consistent s" and k: "kernel_registry s kid = Some k"
    and a: "agent_sock k = Some (TcpSock host p)"
    and u: "used_ports (heap s (instance_ref k)) = Some u"
  defines "s' \<equiv> s\<lparr>heap := (heap s)(instance_ref k := (heap s (instance_ref k))
                        \<lparr>cur_kernels := cur_kernels (heap s (instance_ref k)) - 1,
                         used_ports := Some (u |-| {|p|})\<rparr>),
              kernel_registry := (kernel_registry s)(kid := None)\<rparr>"
  shows "consistent s'"
proof -
  have reg: "kernel_registry s' = (kernel_registry s)(kid := None)"
    and drv: "kernel_driver s' = kernel_driver s"
    by (simp_all add: s'_def)
  from c have fin: "finite (dom (kernel_registry s))" by (simp add: consistent_def)
  have 1: "finite (dom (kernel_registry s'))"
    using fin by (simp add: reg)
  have 2: "(\<exists>host p u. agent_sock k' = Some (TcpSock host p)
              \<and> used_ports (heap s' (instance_ref k')) = Some u \<and> p |\<in>| u)
           \<and> (kernel_driver s' = local \<longrightarrow> (\<exists>a b. priv k' = Process a b))"
    if h: "kernel_registry s' kid' = Some k'" for kid' k'
  proof -
    from h have ne: "kid' \<noteq> kid" and old: "kernel_registry s kid' = Some k'"
      by (auto simp add: reg split: if_splits)
    from c old obtain host' p' u' where o: "agent_sock k' = Some (TcpSock host' p')"
      "used_ports (heap s (instance_ref k')) = Some u'" "p' |\<in>| u'"
      "kernel_driver s = local \<longrightarrow> (\<exists>a b. priv k' = Process a b)"
      unfolding consistent_def by blast
    show ?thesis
    proof (cases "instance_ref k' = instance_ref k")
      case True
      from c k old True ne have "url_port (agent_sock k) \<noteq> url_port (agent_sock k')"
        unfolding consistent_def by metis
      with a o(1) have "p' \<noteq> p" by simp
      moreover from True o(2) u have "u' = u" by simp
      ultimately show ?thesis
        using o True by (simp add: s'_def)
    next
      case False
      with o show ?thesis by (simp add: s'_def)
    qed
  qed
  have 3: "kid1 = kid2"
    if "kernel_registry s' kid1 = Some k1 \<and> kernel_registry s' kid2 = Some k2
           \<and> instance_ref k1 = instance_ref k2 \<and> url_port (agent_sock k1) = url_port (agent_sock k2)"
    for kid1 kid2 k1 k2
  proof -
    from that have "kernel_registry s kid1 = Some k1" "kernel_registry s kid2 = Some k2"
      by (auto simp add: reg split: if_splits)
    with c that show ?thesis
      unfolding consistent_def by blast
  qed
  have 4: "int (card (kernels_on s' r)) \<le> cur_kernels (heap s' r)" for r
  proof -
    have e: "kernels_on s' r = kernels_on s r - {kid}"
      by (auto simp add: kernels_on_def reg)
    from c have le: "int (card (kernels_on s r)) \<le> cur_kernels (heap s r)"
      by (simp add: consistent_def)
    show ?thesis
    proof (cases "r = instance_ref k")
      case True
      with k have "kid \<in> kernels_on s r" by (simp add: kernels_on_def)
      moreover have "finite (kernels_on s r)" using fin by (rule kernels_on_finite)
      ultimately have "card (kernels_on s' r) = card (kernels_on s r) - 1"
        "1 \<le> card (kernels_on s r)"
        unfolding e by (simp, metis One_nat_def Suc_leI card_gt_0_iff empty_iff)
      with le True show ?thesis by (simp add: s'_def)
    next
      case False
      with k have "kid \<notin> kernels_on s r" by (auto simp add: kernels_on_def)
      with e have "kernels_on s' r = kernels_on s r" by simp
      with le False show ?thesis by (simp add: s'_def)
    qed
  qed
  from 1 2 3 4 show ?thesis
    unfolding consistent_def by blast
qed

lemma consistent_update_record:
  assumes c: "consistent s" and k: "kernel_registry s kid = Some k"
    and same: "instance_ref k' = instance_ref k" "agent_sock k' = agent_sock k" "priv k' = priv k"
  defines "s' \<equiv> s\<lparr>kernel_registry := (kernel_registry s)(kid \<mapsto> k')\<rparr>"
  shows "consistent s'"
proof -
  have reg: "kernel_registry s' = (kernel_registry s)(kid \<mapsto> k')"
    and other: "heap s' = heap s" "kernel_driver s' = kernel_driver s"
    by (simp_all add: s'_def)
  text \<open>Every record of the new registry has a counterpart with the same view in the old one.\<close>
  have old_rec: "\<exists>k1'. kernel_registry s kid1 = Some k1' \<and> instance_ref k1' = instance_ref k1
                \<and> agent_sock k1' = agent_sock k1 \<and> priv k1' = priv k1"
    if "kernel_registry s' kid1 = Some k1" for kid1 k1
    using that k same by (cases "kid1 = kid") (simp_all add: reg)
  from c k have 1: "finite (dom (kernel_registry s'))"
    by (simp add: consistent_def reg)
  have 2: "(\<exists>host p u. agent_sock k1 = Some (TcpSock host p)
              \<and> used_ports (heap s' (instance_ref k1)) = Some u \<and> p |\<in>| u)
           \<and> (kernel_driver s' = local \<longrightarrow> (\<exists>a b. priv k1 = Process a b))"
    if "kernel_registry s' kid1 = Some k1" for kid1 k1
    using old_rec [OF that] c unfolding consistent_def other by metis
  have 3: "kid1 = kid2"
    if "kernel_registry s' kid1 = Some k1 \<and> kernel_registry s' kid2 = Some k2
           \<and> instance_ref k1 = instance_ref k2 \<and> url_port (agent_sock k1) = url_port (agent_sock k2)"
    for kid1 kid2 k1 k2
  proof -
    from that old_rec [of kid1 k1] old_rec [of kid2 k2]
    obtain k1' k2' where "kernel_registry s kid1 = Some k1'" "kernel_registry s kid2 = Some k2'"
      "instance_ref k1' = instance_ref k2'" "url_port (agent_sock k1') = url_port (agent_sock k2')"
      by auto
    with c show ?thesis unfolding consistent_def by blast
  qed
  have "kernels_on s' r = kernels_on s r" for r
    using k same(1) by (auto simp add: kernels_on_def reg split: if_splits)
  with c have 4: "int (card (kernels_on s' r)) \<le> cur_kernels (heap s' r)" for r
    by (simp add: consistent_def other)
  from 1 2 3 4 show ?thesis
    unfolding consistent_def by blast
qed

lemma get_socket_info_returns:
  assumes "get_socket_info w kid s = (Inr x, s')"
  shows "\<exists>k k'. kernel_registry s kid = Some k \<and> s' = s\<lparr>kernel_registry := (kernel_registry s)(kid \<mapsto> k')\<rparr>
           \<and> instance_ref k' = instance_ref k \<and> agent_sock k' = agent_sock k \<and> priv k' = priv k"
  using assms
  by (auto simp add: get_socket_info_def Let_def split: option.splits)

lemma consistent_socket_info:
  "consistent s \<Longrightarrow> get_socket_info w kid s = (Inr x, s') \<Longrightarrow> consistent s'"
  using get_socket_info_returns [of w kid s x s'] consistent_update_record [of s kid]
  by blast

lemma consistent_create:
  assumes c: "consistent s" and l: "kernel_driver s = local"
    and cr: "LocalKernelDriver_create_kernel fresh r (taken r s) = (Inr kid, s2)"
  shows "consistent s2"
proof -
  define used where "used = ports_of (heap s r)"
  have t: "ports_of (heap (taken r s) r) = used" "ip (heap (taken r s) r) = ip (heap s r)"
    by (simp_all add: taken_def ports_of_def used_def)
  from local_create_kernel_returns [OF cr] obtain p knew where p: "p |\<notin>| used"
    and knew: "knew = \<lparr>instance_ref = r, kernel_id = kid, spec = ''python34'',
                      agent_sock = Some (TcpSock (ip (heap s r)) p),
                      stdin_sock = None, stdout_sock = None, stderr_sock = None,
                      priv = Process kid p\<rparr>"
    and s2: "s2 = (taken r s)\<lparr>heap := (heap (taken r s))(r := (heap (taken r s) r)\<lparr>used_ports := Some (finsert p used)\<rparr>),
                   kernel_registry := (kernel_registry (taken r s))(kid \<mapsto> knew)\<rparr>"
    unfolding t by blast
  have reg: "kernel_registry s2 = (kernel_registry s)(kid \<mapsto> knew)"
    and drv: "kernel_driver s2 = kernel_driver s"
    and hp: "heap s2 = (heap s)(r := (heap s r)\<lparr>cur_kernels := cur_kernels (heap s r) + 1,
                                               used_ports := Some (finsert p used)\<rparr>)"
    by (simp_all add: s2 taken_def)
  from c have fin: "finite (dom (kernel_registry s))" by (simp add: consistent_def)
  have 1: "finite (dom (kernel_registry s2))"
    using fin by (simp add: reg)
  text \<open>An old record on the instance has its port among the ports occupied before.\<close>
  have old_port: "\<exists>host p'. agent_sock k' = Some (TcpSock host p') \<and> p' |\<in>| used"
    if "kernel_registry s kid' = Some k'" "instance_ref k' = r" for kid' k'
    using c that unfolding consistent_def used_def ports_of_def by fastforce
  have 2: "(\<exists>host p u. agent_sock k' = Some (TcpSock host p)
              \<and> used_ports (heap s2 (instance_ref k')) = Some u \<and> p |\<in>| u)
           \<and> (kernel_driver s2 = local \<longrightarrow> (\<exists>a b. priv k' = Process a b))"
    if h: "kernel_registry s2 kid' = Some k'" for kid' k'
  proof (cases "kid' = kid")
    case True
    with h have "k' = knew" by (simp add: reg)
    then show ?thesis by (simp add: knew hp)
  next
    case False
    with h have old: "kernel_registry s kid' = Some k'" by (simp add: reg)
    from c old obtain host' p' u' where o: "agent_sock k' = Some (TcpSock host' p')"
      "used_ports (heap s (instance_ref k')) = Some u'" "p' |\<in>| u'"
      "kernel_driver s = local \<longrightarrow> (\<exists>a b. priv k' = Process a b)"
      unfolding consistent_def by blast
    show ?thesis
    proof (cases "instance_ref k' = r")
      case True
      from old_port [OF old True] o(1) have "p' |\<in>| used" by simp
      with o True show ?thesis by (simp add: hp drv)
    next
      case False
      with o show ?thesis by (simp add: hp drv)
    qed
  qed
  have 3: "kid1 = kid2"
    if h: "kernel_registry s2 kid1 = Some k1 \<and> kernel_registry s2 kid2 = Some k2
           \<and> instance_ref k1 = instance_ref k2 \<and> url_port (agent_sock k1) = url_port (agent_sock k2)"
    for kid1 kid2 k1 k2
  proof -
    have fresh_port: False
      if "kernel_registry s kid' = Some k'" "instance_ref k' = r"
        "url_port (agent_sock k') = Some p" for kid' k'
      using old_port [OF that(1,2)] that(3) p by auto
    consider "kid1 = kid" "kid2 = kid" | "kid1 = kid" "kid2 \<noteq> kid"
      | "kid1 \<noteq> kid" "kid2 = kid" | "kid1 \<noteq> kid" "kid2 \<noteq> kid"
      by blast
    then show ?thesis
    proof cases
      case 1
      then show ?thesis by simp
    next
      case 2
      with h have "k1 = knew" "kernel_registry s kid2 = Some k2" by (simp_all add: reg)
      with h fresh_port [of kid2 k2] show ?thesis by (simp add: knew)
    next
      case 3
      with h have "k2 = knew" "kernel_registry s kid1 = Some k1" by (simp_all add: reg)
      with h fresh_port [of kid1 k1] show ?thesis by (simp add: knew)
    next
      case 4
      with h have "kernel_registry s kid1 = Some k1" "kernel_registry s kid2 = Some k2"
        by (simp_all add: reg)
      with c h show ?thesis unfolding consistent_def by blast
    qed
  qed
  have 4: "int (card (kernels_on s2 r')) \<le> cur_kernels (heap s2 r')" for r'
  proof -
    from c have le: "int (card (kernels_on s r')) \<le> cur_kernels (heap s r')"
      by (simp add: consistent_def)
    have f: "finite (kernels_on s r')" using fin by (rule kernels_on_finite)
    show ?thesis
    proof (cases "r' = r")
      case True
      have "kernels_on s2 r' \<subseteq> insert kid (kernels_on s r')"
        by (auto simp add: kernels_on_def reg split: if_splits)
      with f have "card (kernels_on s2 r') \<le> card (insert kid (kernels_on s r'))"
        by (simp add: card_mono)
      also have "\<dots> \<le> card (kernels_on s r') + 1"
        using f by (simp add: card_insert_if)
      finally show ?thesis using le True by (simp add: hp)
    next
      case False
      have "kernels_on s2 r' \<subseteq> kernels_on s r'"
        using False by (auto simp add: kernels_on_def reg knew split: if_splits)
      with f have "card (kernels_on s2 r') \<le> card (kernels_on s r')"
        by (simp add: card_mono)
      with le False show ?thesis by (simp add: hp)
    qed
  qed
  from 1 2 3 4 show ?thesis
    unfolding consistent_def by blast
qed

lemma create_probe_continue:
  "create_probe w kid s = (Continue, tr, s') \<Longrightarrow> \<exists>x. get_socket_info w kid s = (Inr x, s')"
  by (auto simp add: create_probe_def split: prod.splits sum.splits bool.splits option.splits)

lemma consistent_handle_request:
  assumes c: "consistent s" and h: "handle_request w req s = (Continue, tr, s')"
  shows "consistent s'"
proof (cases "action req")
  case PING
  with h have "s' = s" by (simp add: handle_request_def)
  with c show ?thesis by simp
next
  case DESTROY
  show ?thesis
  proof (cases "kernel_registry s (req_kernel_id req)")
    case None
    with h DESTROY have "s' = s" by (simp add: handle_request_def)
    with c show ?thesis by simp
  next
    case (Some k)
    from consistent_registered [OF c Some] obtain host p u
      where r: "agent_sock k = Some (TcpSock host p)"
        "used_ports (heap s (instance_ref k)) = Some u" "p |\<in>| u"
        "1 \<le> cur_kernels (heap s (instance_ref k))"
        "kernel_driver s = local \<longrightarrow> (\<exists>a b. priv k = Process a b)"
      by blast
    note d = destroy_kernel_consistent [OF Some r(1-4), of "kernel_driver s" "child w", OF r(5)]
    with h DESTROY Some
    have "s' = s\<lparr>heap := (heap s)(instance_ref k := (heap s (instance_ref k))
                        \<lparr>cur_kernels := cur_kernels (heap s (instance_ref k)) - 1,
                         used_ports := Some (u |-| {|p|})\<rparr>),
              kernel_registry := (kernel_registry s)(req_kernel_id req := None)\<rparr>"
      by (cases "kernel_driver s"; cases "child w")
         (simp_all add: handle_request_def del: destroy_kernel.simps)
    with consistent_destroy [OF c Some r(1,2)] show ?thesis by simp
  qed
next
  case CREATE
  obtain ro s1 where f: "find_avail_instance (kernel_driver s) s = (ro, s1)"
    by (cases "find_avail_instance (kernel_driver s) s")
  with h CREATE obtain r where ro: "ro = Some r"
    by (cases ro) (simp_all add: handle_request_def del: find_avail_instance.simps)
  from find_avail_instance_some f ro have s1: "s1 = taken r s" by blast
  obtain res s2 where cr: "create_kernel (kernel_driver s) (fresh_id w) r s1 = (res, s2)"
    by (cases "create_kernel (kernel_driver s) (fresh_id w) r s1")
  with h CREATE f ro obtain kid where res: "res = Inr kid"
    by (cases res)
       (simp_all add: handle_request_def del: find_avail_instance.simps create_kernel.simps)
  from create_kernel_returns cr res
  have l: "kernel_driver s = local"
    and lc: "LocalKernelDriver_create_kernel (fresh_id w) r s1 = (Inr kid, s2)"
    by blast+
  from consistent_create [OF c l lc [unfolded s1]] have c2: "consistent s2" .
  from h CREATE f ro cr res have "create_probe w kid s2 = (Continue, tr, s')"
    by (simp add: handle_request_def del: find_avail_instance.simps create_kernel.simps)
  from create_probe_continue [OF this] consistent_socket_info [OF c2] show ?thesis
    by blast
qed

lemma consistent_handle_api:
  "consistent s0 \<Longrightarrow> handle_api reqs s0 = (AwaitingRead, tr, s) \<Longrightarrow> consistent s"
proof (induction reqs arbitrary: s0 tr)
  case Nil
  then show ?case by simp
next
  case (Cons a reqs)
  obtain w req where a: "a = (w, req)" by (cases a)
  obtain st tr1 s1 where h: "handle_request w req s0 = (st, tr1, s1)"
    by (cases "handle_request w req s0")
  obtain out2 tr2 s2 where r: "handle_api reqs s1 = (out2, tr2, s2)"
    by (cases "handle_api reqs s1")
  from Cons.prems(2) a h r have "st = Continue" "out2 = AwaitingRead" "s2 = s"
    by (cases st; simp)+
  with h r Cons.IH [of s1 tr2] consistent_handle_request [OF Cons.prems(1), of w req tr1 s1]
  show ?case by simp
qed

lemma no_kernels_consistent: "no_kernels s \<Longrightarrow> consistent s"
  by (simp add: no_kernels_def consistent_def kernels_on_def)

lemma no_kernels_initial: "no_kernels (initial drv)"
  by (simp add: no_kernels_def initial_def new_instance_def)

text \<open>
  With the docker driver \<open>destroy_kernel\<close> never returns, and a handler started without
  kernels never gets one: no pass that creates a kernel goes on, so the state in which it
  waits is the state in which it started.
\<close>

lemma docker_destroy_kernel_raises:
  "\<exists>e. fst (destroy_kernel docker ch kid s) = Some (Inl e)"
  by (simp add: DockerKernelDriver_destroy_kernel_def Let_def split: option.splits sum.splits)

lemma docker_handle_request_continue:
  assumes d: "kernel_driver s = docker" and e: "kernel_registry s = Map.empty"
    and h: "handle_request w req s = (Continue, tr, s')"
  shows "s' = s"
proof (cases "action req")
  case PING
  with h show ?thesis by (simp add: handle_request_def)
next
  case DESTROY
  with h e show ?thesis by (simp add: handle_request_def)
next
  case CREATE
  obtain ro s1 where f: "find_avail_instance docker s = (ro, s1)"
    by (cases "find_avail_instance docker s")
  with h CREATE d obtain r where ro: "ro = Some r"
    by (cases ro) (simp_all add: handle_request_def del: find_avail_instance.simps)
  obtain res s2 where cr: "create_kernel docker (fresh_id w) r s1 = (res, s2)"
    by (cases "create_kernel docker (fresh_id w) r s1")
  with h CREATE d f ro obtain kid where "res = Inr kid"
    by (cases res)
       (simp_all add: handle_request_def del: find_avail_instance.simps create_kernel.simps)
  with cr create_kernel_returns [of docker "fresh_id w" r s1 kid s2] show ?thesis
    by simp
qed

lemma docker_handle_api:
  "kernel_driver s0 = docker \<Longrightarrow> kernel_registry s0 = Map.empty
     \<Longrightarrow> handle_api reqs s0 = (AwaitingRead, tr, s) \<Longrightarrow> s = s0"
proof (induction reqs arbitrary: tr)
  case Nil
  then show ?case by simp
next
  case (Cons a reqs)
  obtain w req where a: "a = (w, req)" by (cases a)
  obtain st tr1 s1 where h: "handle_request w req s0 = (st, tr1, s1)"
    by (cases "handle_request w req s0")
  obtain out2 tr2 s2 where r: "handle_api reqs s1 = (out2, tr2, s2)"
    by (cases "handle_api reqs s1")
  from Cons.prems(3) a h r have c: "st = Continue" "out2 = AwaitingRead" "s2 = s"
    by (cases st; simp)+
  with docker_handle_request_continue [OF Cons.prems(1,2), of w req tr1 s1] h
  have "s1 = s0" by simp
  with Cons.IH [OF Cons.prems(1,2), of tr2] r c show ?case by simp
qed

text \<open>
  Claim C2, amended. Let the handler be started in a state without kernels, as the
  module's startup state is, serve any requests and wait for the next one. With the local
  driver, for every kernel id in the registry whose child process is running and exits
  when it is terminated, a DESTROY request is answered with SUCCESS and the kernel id,
  and afterwards the record is absent from the registry, the record's agent port is
  removed from the occupied ports of its instance, and the instance's count is lower by
  exactly one. With the docker driver the state is still the one without kernels, so a
  DESTROY is answered with INVALID_INPUT and changes nothing; and \<open>destroy_kernel\<close> of the
  docker driver never returns, whatever the state: every call ends in an exception.
\<close>

theorem destroy_registered_kernel:
  assumes "no_kernels s0" and "handle_api reqs s0 = (AwaitingRead, tr, s)"
    and "action req = DESTROY"
  shows "(kernel_driver s = local \<and> kernel_registry s (req_kernel_id req) = Some k
            \<and> child w = Exits \<longrightarrow>
            fst (handle_request w req s) = Continue
            \<and> fst (snd (handle_request w req s))
                = [Write \<lparr>reply = SUCCESS, resp_kernel_id = req_kernel_id req, resp_body = Text []\<rparr>]
            \<and> kernel_registry (snd (snd (handle_request w req s))) (req_kernel_id req) = None
            \<and> (\<exists>host p. agent_sock k = Some (TcpSock host p)
                  \<and> p |\<in>| ports_of (heap s (instance_ref k))
                  \<and> ports_of (heap (snd (snd (handle_request w req s))) (instance_ref k))
                      = ports_of (heap s (instance_ref k)) |-| {|p|})
            \<and> cur_kernels (heap (snd (snd (handle_request w req s))) (instance_ref k))
                = cur_kernels (heap s (instance_ref k)) - 1)
    \<and> (kernel_driver s0 = docker \<longrightarrow>
            s = s0
            \<and> handle_request w req s
                = (Continue,
                   [Write \<lparr>reply = INVALID_INPUT, resp_kernel_id = [],
                           resp_body = Text ''No such kernel.''\<rparr>], s))
    \<and> (\<exists>e. fst (destroy_kernel docker (child w) (req_kernel_id req) s) = Some (Inl e))"
proof (intro conjI impI)
  assume a: "kernel_driver s = local \<and> kernel_registry s (req_kernel_id req) = Some k
            \<and> child w = Exits"
  from consistent_handle_api [OF no_kernels_consistent [OF assms(1)] assms(2)]
  have c: "consistent s" .
  from a have reg: "kernel_registry s (req_kernel_id req) = Some k" by simp
  from consistent_registered [OF c reg] obtain host p u
    where r: "agent_sock k = Some (TcpSock host p)"
      "used_ports (heap s (instance_ref k)) = Some u" "p |\<in>| u"
      "1 \<le> cur_kernels (heap s (instance_ref k))"
      "kernel_driver s = local \<longrightarrow> (\<exists>a b. priv k = Process a b)"
    by blast
  note d = destroy_kernel_consistent [OF reg r(1-4), of "kernel_driver s" "child w", OF r(5)]
  with a assms(3) r(1,2,3)
  have "fst (handle_request w req s) = Continue
      \<and> fst (snd (handle_request w req s))
          = [Write \<lparr>reply = SUCCESS, resp_kernel_id = req_kernel_id req, resp_body = Text []\<rparr>]
      \<and> kernel_registry (snd (snd (handle_request w req s))) (req_kernel_id req) = None
      \<and> (\<exists>host p. agent_sock k = Some (TcpSock host p)
            \<and> p |\<in>| ports_of (heap s (instance_ref k))
            \<and> ports_of (heap (snd (snd (handle_request w req s))) (instance_ref k))
                = ports_of (heap s (instance_ref k)) |-| {|p|})
      \<and> cur_kernels (heap (snd (snd (handle_request w req s))) (instance_ref k))
          = cur_kernels (heap s (instance_ref k)) - 1"
    by (simp add: handle_request_def ports_of_def del: destroy_kernel.simps)
  then show "fst (handle_request w req s) = Continue"
    and "fst (snd (handle_request w req s))
          = [Write \<lparr>reply = SUCCESS, resp_kernel_id = req_kernel_id req, resp_body = Text []\<rparr>]"
    and "kernel_registry (snd (snd (handle_request w req s))) (req_kernel_id req) = None"
    and "\<exists>host p. agent_sock k = Some (TcpSock host p)
            \<and> p |\<in>| ports_of (heap s (instance_ref k))
            \<and> ports_of (heap (snd (snd (handle_request w req s))) (instance_ref k))
                = ports_of (heap s (instance_ref k)) |-| {|p|}"
    and "cur_kernels (heap (snd (snd (handle_request w req s))) (instance_ref k))
          = cur_kernels (heap s (instance_ref k)) - 1"
    by blast+
next
  assume d: "kernel_driver s0 = docker"
  from assms(1) have e: "kernel_registry s0 = Map.empty" by (simp add: no_kernels_def)
  from docker_handle_api [OF d e assms(2)] show s: "s = s0" .
  from e assms(3) show "handle_request w req s
                = (Continue,
                   [Write \<lparr>reply = INVALID_INPUT, resp_kernel_id = [],
                           resp_body = Text ''No such kernel.''\<rparr>], s)"
    unfolding s by (simp add: handle_request_def)
next
  show "\<exists>e. fst (destroy_kernel docker (child w) (req_kernel_id req) s) = Some (Inl e)"
    by (rule docker_destroy_kernel_raises)
qed

text \<open>
  A CREATE served from the startup state with the local driver, the third heartbeat
  answered; a DESTROY of the kernel it created when the child has exited; a PING served
  from the startup state with the docker driver.
\<close>

lemma probe_slow:
  "probe slow_world ''local/u1'' one_kernel 0
       = (Inr True, [Ping ''local/u1'', Sleep 1000, Ping ''local/u1'', Sleep 1000, Ping ''local/u1''])"
  by (simp add: probe.simps ping_kernel_def one_kernel_def slow_world_def)

lemma socket_info_slow: "get_socket_info slow_world ''local/u1'' one_kernel = (Inr (), ready_kernel)"
  by (simp add: get_socket_info_def Let_def slow_world_def one_kernel_def ready_kernel_def ready_u1_def)

lemma handle_api_create_slow:
  "handle_api [(slow_world, create_request)] (initial local) =
     (AwaitingRead,
      [Read create_request, Sleep 200, Ping ''local/u1'', Sleep 1000, Ping ''local/u1'', Sleep 1000,
       Ping ''local/u1'', Write (success_response ''local/u1'' ready_u1)],
      ready_kernel)"
proof -
  have "kernel_driver (initial local) = local" "fresh_id slow_world = ''u1''"
    "action create_request = CREATE"
    "kernel_registry ready_kernel ''local/u1'' = Some ready_u1"
    by (simp_all add: initial_def slow_world_def create_request_def ready_kernel_def)
  then show ?thesis
    by (simp add: handle_request_def find_initial local_create_initial create_probe_def
          probe_slow socket_info_slow
          del: find_avail_instance.simps create_kernel.simps)
qed

lemma handle_destroy_gone:
  "handle_request gone_world (destroy_request ''local/u1'') ready_kernel
     = (Raise ProcessLookupError, [], lowered 0 ready_kernel)"
  by (simp add: handle_request_def LocalKernelDriver_destroy_kernel_def Let_def lowered_def
        gone_world_def ready_kernel_def ready_u1_def example_defs)

lemma handle_api_ping_docker:
  "handle_api [(dead_world, ping_request)] (initial docker)
     = (AwaitingRead,
        [Read ping_request,
         Write \<lparr>reply = PONG, resp_kernel_id = [], resp_body = Text ''abc''\<rparr>],
        initial docker)"
  by (simp add: handle_request_def ping_request_def)

text \<open>
  The claim as stated fails with the local driver when the child process has exited
  before the DESTROY: \<^verbatim>\<open>proc.terminate()\<close> raises \<open>ProcessLookupError\<close> after the count was
  lowered. The exception leaves the handler, no response is written, and the record
  \<open>local/u1\<close> and its port 5002 are still in place.
\<close>

theorem destroy_exited_child_counterexample:
  "handle_api [(slow_world, create_request), (gone_world, destroy_request ''local/u1'')]
       (initial local)
     = (Raised ProcessLookupError,
        [Read create_request, Sleep 200, Ping ''local/u1'', Sleep 1000, Ping ''local/u1'',
         Sleep 1000, Ping ''local/u1'', Write (success_response ''local/u1'' ready_u1),
         Read (destroy_request ''local/u1'')],
        lowered 0 ready_kernel)
   \<and> kernel_registry ready_kernel ''local/u1'' = Some ready_u1
   \<and> kernel_registry (lowered 0 ready_kernel) ''local/u1'' = Some ready_u1
   \<and> agent_sock ready_u1 = Some (TcpSock ''127.0.0.1'' 5002)
   \<and> used_ports (heap (lowered 0 ready_kernel) 0) = Some {|5002|}
   \<and> cur_kernels (heap (lowered 0 ready_kernel) 0) = 0"
proof -
  have c: "handle_request slow_world create_request (initial local)
             = (Continue,
                [Sleep 200, Ping ''local/u1'', Sleep 1000, Ping ''local/u1'', Sleep 1000,
                 Ping ''local/u1'', Write (success_response ''local/u1'' ready_u1)],
                ready_kernel)"
    using handle_api_create_slow
    by (cases "handle_request slow_world create_request (initial local)")
       (auto split: step.splits)
  have "handle_api [(slow_world, create_request), (gone_world, destroy_request ''local/u1'')]
       (initial local)
     = (Raised ProcessLookupError,
        [Read create_request, Sleep 200, Ping ''local/u1'', Sleep 1000, Ping ''local/u1'',
         Sleep 1000, Ping ''local/u1'', Write (success_response ''local/u1'' ready_u1),
         Read (destroy_request ''local/u1'')],
        lowered 0 ready_kernel)"
    by (simp add: c handle_destroy_gone)
  then show ?thesis
    by (simp add: lowered_def ready_kernel_def ready_u1_def example_defs)
qed

theorem destroy_registered_kernel_witness:
  "no_kernels (initial local)
   \<and> handle_api [(slow_world, create_request)] (initial local) =
       (AwaitingRead,
        [Read create_request, Sleep 200, Ping ''local/u1'', Sleep 1000, Ping ''local/u1'',
         Sleep 1000, Ping ''local/u1'', Write (success_response ''local/u1'' ready_u1)],
        ready_kernel)
   \<and> action (destroy_request ''local/u1'') = DESTROY
   \<and> kernel_driver ready_kernel = local
   \<and> kernel_registry ready_kernel (req_kernel_id (destroy_request ''local/u1'')) = Some ready_u1
   \<and> child dead_world = Exits
   \<and> fst (handle_request dead_world (destroy_request ''local/u1'') ready_kernel) = Continue
   \<and> fst (snd (handle_request dead_world (destroy_request ''local/u1'') ready_kernel))
       = [Write \<lparr>reply = SUCCESS, resp_kernel_id = ''local/u1'', resp_body = Text []\<rparr>]
   \<and> kernel_registry (snd (snd (handle_request dead_world (destroy_request ''local/u1'') ready_kernel)))
        ''local/u1'' = None
   \<and> ports_of (heap (snd (snd (handle_request dead_world (destroy_request ''local/u1'') ready_kernel))) 0)
       = {||}
   \<and> cur_kernels (heap (snd (snd (handle_request dead_world (destroy_request ''local/u1'') ready_kernel))) 0)
       = 0
   \<and> no_kernels (initial docker)
   \<and> kernel_driver (initial docker) = docker
   \<and> handle_api [(dead_world, ping_request)] (initial docker)
       = (AwaitingRead,
          [Read ping_request,
           Write \<lparr>reply = PONG, resp_kernel_id = [], resp_body = Text ''abc''\<rparr>],
          initial docker)
   \<and> handle_request dead_world (destroy_request ''docker-127.0.0.1/c1'') (initial docker)
       = (Continue,
          [Write \<lparr>reply = INVALID_INPUT, resp_kernel_id = [],
                  resp_body = Text ''No such kernel.''\<rparr>], initial docker)"
proof -
  have a: "action (destroy_request ''local/u1'') = DESTROY"
    and r: "kernel_registry ready_kernel (req_kernel_id (destroy_request ''local/u1'')) = Some ready_u1"
    and l: "kernel_driver ready_kernel = local"
    and x: "child dead_world = Exits"
    and a': "action (destroy_request ''docker-127.0.0.1/c1'') = DESTROY"
    and l': "kernel_driver (initial docker) = docker"
    by (simp_all add: example_defs ready_kernel_def)
  have i: "instance_ref ready_u1 = 0"
    "agent_sock ready_u1 = Some (TcpSock ''127.0.0.1'' 5002)"
    "cur_kernels (heap ready_kernel 0) = 1"
    "ports_of (heap ready_kernel 0) = {|5002|}"
    "req_kernel_id (destroy_request ''local/u1'') = ''local/u1''"
    by (simp_all add: example_defs ready_kernel_def ready_u1_def ports_of_def)
  from destroy_registered_kernel
         [OF no_kernels_initial handle_api_create_slow a, of ready_u1 dead_world] l r x
  have 1: "fst (handle_request dead_world (destroy_request ''local/u1'') ready_kernel) = Continue"
    "fst (snd (handle_request dead_world (destroy_request ''local/u1'') ready_kernel))
       = [Write \<lparr>reply = SUCCESS, resp_kernel_id = ''local/u1'', resp_body = Text []\<rparr>]"
    "kernel_registry (snd (snd (handle_request dead_world (destroy_request ''local/u1'') ready_kernel)))
        ''local/u1'' = None"
    "ports_of (heap (snd (snd (handle_request dead_world (destroy_request ''local/u1'') ready_kernel))) 0)
       = {||}"
    "cur_kernels (heap (snd (snd (handle_request dead_world (destroy_request ''local/u1'') ready_kernel))) 0)
       = 0"
    unfolding i by auto
  from destroy_registered_kernel
         [OF no_kernels_initial handle_api_ping_docker a', of ready_u1 dead_world] l'
  have 2: "handle_request dead_world (destroy_request ''docker-127.0.0.1/c1'') (initial docker)
       = (Continue,
          [Write \<lparr>reply = INVALID_INPUT, resp_kernel_id = [],
                  resp_body = Text ''No such kernel.''\<rparr>], initial docker)"
    by blast
  from no_kernels_initial [of local] no_kernels_initial [of docker]
    handle_api_create_slow handle_api_ping_docker a l r x l' 1 2
  show ?thesis
    unfolding i by blast
qed

subsection \<open>What create\_kernel returns\<close>

text \<open>
  The local driver returns the id under which it has written the record.
\<close>

lemma local_create_kernel_registers:
  assumes "create_kernel local fresh r s = (Inr kid, s2)"
  shows "kid = ''local/'' @ fresh
    \<and> (\<exists>k. kernel_registry s2 kid = Some k \<and> kernel_id k = kid \<and> instance_ref k = r)"
  using local_create_kernel_returns [of fresh r s kid s2] assms by auto

text \<open>
  Claim C3 fails for the docker driver. Its \<open>create_kernel\<close> never returns an id: on
  \<open>initial docker\<close>, once \<open>find_avail_instance\<close> has chosen the instance, it writes the
  record under \<open>docker-127.0.0.1/c1\<close> and then raises \<open>NameError\<close> at
  \<^verbatim>\<open>return kernel_id\<close>, so that the CREATE request ends the handler with this exception
  and without a response.
\<close>

theorem docker_create_kernel_name_error:
  "fst (create_kernel docker fresh r s) \<noteq> Inr kid
   \<and> create_kernel docker ''c1'' 0 (taken 0 (initial docker))
       = (Inl (NameError ''kernel_id''), one_docker_kernel)
   \<and> kernel_registry one_docker_kernel ''docker-127.0.0.1/c1'' = Some kernel_c1
   \<and> kernel_id kernel_c1 = ''docker-127.0.0.1/c1''
   \<and> handle_request docker_world create_request (initial docker)
       = (Raise (NameError ''kernel_id''), [], one_docker_kernel)"
proof -
  have "fst (create_kernel docker fresh r s) \<noteq> Inr kid"
    using docker_create_kernel_raises [of fresh r s kid] by simp
  moreover have "kernel_registry one_docker_kernel ''docker-127.0.0.1/c1'' = Some kernel_c1"
    "kernel_id kernel_c1 = ''docker-127.0.0.1/c1''"
    by (simp_all add: one_docker_kernel_def kernel_c1_def)
  ultimately show ?thesis
    using docker_create_initial handle_create_docker by simp
qed

subsection \<open>Dispatching events\<close>

text \<open>
  Handlers that are coroutine functions are scheduled as tasks in the order of their
  registration, and an event without handlers schedules nothing and raises nothing.
\<close>

lemma dispatch_loop_coroutines:
  "dispatch_loop (map CoroutineFunction ns) agent_id args
     = (None, map (\<lambda>n. CreateTask n agent_id args) ns)"
  by (induction ns) simp_all

lemma dispatch_coroutine_functions:
  "handlers d event_name = Some (map CoroutineFunction ns)
     \<Longrightarrow> dispatch event_name agent_id (ArgList xs) d
          = ((None, map (\<lambda>n. CreateTask n agent_id xs) ns), d)"
  by (simp add: dispatch_def handlers_get_def dispatch_loop_coroutines)

lemma dispatch_unknown_event:
  "handlers d event_name = None
     \<Longrightarrow> dispatch event_name agent_id (ArgList xs) d
          = ((None, []), d\<lparr>handlers := (handlers d)(event_name \<mapsto> [])\<rparr>)"
  by (simp add: dispatch_def handlers_get_def)

text \<open>A map that is not empty stops \<open>dispatch\<close> before any handler is read.\<close>

lemma dispatch_map:
  "dispatch event_name agent_id (ArgMap (kv # kvs)) d = ((Some KeyError, []), d)"
  by (simp add: dispatch_def)

text \<open>
  Claim C4 fails for a handler that is not a coroutine function. \<open>dispatch\<close> raises
  \<open>NameError\<close> at \<^verbatim>\<open>functools.partial\<close> instead of handing the handler to
  \<^verbatim>\<open>call_soon\<close>; the handlers registered after it are not scheduled, and the subscriber
  logs the exception and stops reading frames.
\<close>

theorem dispatch_plain_handler_name_error:
  "add_handler ''instance_heartbeat'' (PlainCallable ''on_heartbeat'') \<lparr>handlers = Map.empty\<rparr>
     = Inr plain_dispatcher
   \<and> dispatch ''instance_heartbeat'' ''agent-1'' (ArgList []) plain_dispatcher
       = ((Some (NameError ''functools''), []), plain_dispatcher)
   \<and> event_subscriber [Frame ''instance_heartbeat'' ''agent-1'' (ArgList []),
                         Frame ''instance_heartbeat'' ''agent-1'' (ArgList [])] plain_dispatcher
       = (Failed (NameError ''functools''), [], plain_dispatcher)
   \<and> dispatch ''kernel_terminated'' ''agent-1'' (ArgList [''k1'']) mixed_dispatcher
       = ((Some (NameError ''functools''), [CreateTask ''first'' ''agent-1'' [''k1'']]),
          mixed_dispatcher)"
  by (simp add: add_handler_def handlers_get_def dispatch_def plain_dispatcher_def
        mixed_dispatcher_def)

end
